theory Spec2Isabelle
  imports Complex_Main "HOL-Library.Multiset" "HOL-Library.Signed_Division"
begin

section \<open>Zoo simulator: data model\<close>

text \<open>
  The embedding follows \<^verbatim>\<open>zoo_simulator.cpp\<close>. Conventions:
  \<^item> \<^verbatim>\<open>int\<close> fields are HOL integers; the validated menu inputs and the 20-day horizon keep
    every counter far from the 32-bit bounds, so no wrap-around is written out;
  \<^item> \<^verbatim>\<open>double\<close> fields (money, popularity, weight, loan amounts) are exact reals: rounding
    of the floating-point operations is outside this model;
  \<^item> \<^verbatim>\<open>std::string\<close> is a list of bytes (the source file is UTF-8);
  \<^item> the process-wide state (the static counter \<^verbatim>\<open>Animal::nextId\<close> and the position in the
    \<^verbatim>\<open>rand()\<close> sequence) is carried in the zoo record; the sequence itself is a parameter
    \<open>rng\<close>, the n-th value returned by \<^verbatim>\<open>rand()\<close> after \<^verbatim>\<open>srand\<close>;
  \<^item> console output is not modelled; validated console input is a parameter of the action.
\<close>

datatype AnimalType = HERBIVORE | CARNIVORE

datatype Climate = TROPICAL | TEMPERATE | ARCTIC

datatype Gender = MALE | FEMALE

datatype WorkerType = DIRECTOR | VETERINARIAN | CLEANER | FEEDER

datatype error = runtime_error

definition bytes :: "nat list \<Rightarrow> string" where
  "bytes ns = map char_of ns"

subsection \<open>Loan\<close>

record Loan =
  principal :: real
  days :: int
  dailyInterestRate :: real
  dailyRepayment :: real
  daysLeft :: int

text \<open>The constructor \<^verbatim>\<open>Loan(p, d, rate)\<close>; it throws when \<^verbatim>\<open>d <= 0\<close>.\<close>

definition Loan_ctor :: "real \<Rightarrow> int \<Rightarrow> real \<Rightarrow> error + Loan" where
  "Loan_ctor p d rate =
     (if d \<le> 0 then Inl runtime_error
      else
        (let totalInterest = p * rate * real_of_int d;
             totalRepayment = p + totalInterest
         in Inr \<lparr>principal = p, days = d, dailyInterestRate = rate,
                 dailyRepayment = totalRepayment / real_of_int d, daysLeft = d\<rparr>))"

definition default_rate :: real where
  "default_rate = 0.005"

definition getRemainingDebt :: "Loan \<Rightarrow> real" where
  "getRemainingDebt l = dailyRepayment l * real_of_int (daysLeft l)"

subsection \<open>Animal\<close>

record Animal =
  species :: string
  displayName :: string
  ageDays :: int
  weight :: real
  preferredClimate :: Climate
  price :: int
  a_type :: AnimalType
  enclosureId :: int
  daysSincePurchase :: int
  gender :: Gender
  isBornInZoo :: bool
  parents :: "string \<times> string"
  isSick :: bool
  uniqueId :: int

text \<open>
  The constructor with all thirteen parameters; the last argument is the value of
  \<^verbatim>\<open>Animal::nextId\<close> that \<^verbatim>\<open>uniqueId(nextId++)\<close> reads (the caller advances the counter).
\<close>

definition Animal_ctor ::
  "string \<Rightarrow> string \<Rightarrow> int \<Rightarrow> real \<Rightarrow> Climate \<Rightarrow> int \<Rightarrow> AnimalType \<Rightarrow> Gender \<Rightarrow> bool \<Rightarrow> int \<Rightarrow> int
     \<Rightarrow> string \<times> string \<Rightarrow> bool \<Rightarrow> int \<Rightarrow> Animal" where
  "Animal_ctor sp nm age w c p t g born encId daysPurch par sick uid =
     \<lparr>species = sp, displayName = nm, ageDays = age, weight = w, preferredClimate = c,
      price = p, a_type = t, enclosureId = encId, daysSincePurchase = daysPurch, gender = g,
      isBornInZoo = born, parents = par, isSick = sick, uniqueId = uid\<rparr>"

definition incrementDaysSincePurchase :: "Animal \<Rightarrow> Animal" where
  "incrementDaysSincePurchase a = a\<lparr>daysSincePurchase := daysSincePurchase a + 1\<rparr>"

definition incrementAgeDays :: "Animal \<Rightarrow> Animal" where
  "incrementAgeDays a = a\<lparr>ageDays := ageDays a + 1\<rparr>"

definition setSick :: "bool \<Rightarrow> Animal \<Rightarrow> Animal" where
  "setSick s a = a\<lparr>isSick := s\<rparr>"

definition setDisplayName :: "string \<Rightarrow> Animal \<Rightarrow> Animal" where
  "setDisplayName nm a = a\<lparr>displayName := nm\<rparr>"

definition setEnclosureId :: "int \<Rightarrow> Animal \<Rightarrow> Animal" where
  "setEnclosureId i a = a\<lparr>enclosureId := i\<rparr>"

text \<open>The suffix literal of \<^verbatim>\<open>operator+\<close> (underscore, then a Cyrillic word), as the bytes of the source file.\<close>

definition newborn_suffix :: string where
  "newborn_suffix = bytes [95, 208, 157, 208, 190, 208, 178, 208, 190, 209, 128, 208, 190,
     208, 182, 208, 180, 209, 145, 208, 189, 208, 189, 209, 139, 208, 185]"

definition None_str :: string where
  "None_str = ''None''"

text \<open>
  \<^verbatim>\<open>Animal::operator+\<close>. \<open>r\<close> is the value the call of \<^verbatim>\<open>rand()\<close> returns and \<open>uid\<close> the
  current \<^verbatim>\<open>Animal::nextId\<close>; neither is read when the guard throws. The division of the
  prices is C++ integer division (truncating, \<open>sdiv\<close>).
\<close>

definition operator_plus :: "Animal \<Rightarrow> Animal \<Rightarrow> nat \<Rightarrow> int \<Rightarrow> error + Animal" where
  "operator_plus a other r uid =
     (if enclosureId a \<noteq> enclosureId other \<or> gender a = gender other
         \<or> ageDays a \<le> 5 \<or> ageDays other \<le> 5
      then Inl runtime_error
      else
        (let newSpecies = take (length (species a) div 2) (species a)
                            @ drop (length (species other) div 2) (species other);
             newName = newSpecies @ newborn_suffix;
             newGender = (if r mod 2 = 0 then MALE else FEMALE);
             newWeight = (weight a + weight other) / 4;
             newPrice = (price a + price other) sdiv 2
         in Inr (Animal_ctor newSpecies newName 0 newWeight (preferredClimate a) newPrice
                   (a_type a) newGender True (enclosureId a) 0
                   (displayName a, displayName other) False uid)))"

subsection \<open>Enclosure\<close>

record Enclosure =
  e_id :: int
  capacity :: int
  animalType :: AnimalType
  climate :: Climate
  dailyCost :: int
  e_animals :: "Animal list"

definition Enclosure_ctor :: "int \<Rightarrow> int \<Rightarrow> AnimalType \<Rightarrow> Climate \<Rightarrow> int \<Rightarrow> Enclosure" where
  "Enclosure_ctor i cap t c cost =
     \<lparr>e_id = i, capacity = cap, animalType = t, climate = c, dailyCost = cost, e_animals = []\<rparr>"

text \<open>\<^verbatim>\<open>static_cast<size_t>(capacity)\<close> on a 64-bit \<^verbatim>\<open>size_t\<close>.\<close>

definition to_size_t :: "int \<Rightarrow> nat" where
  "to_size_t k = nat (k mod 2 ^ 64)"

definition canAddAnimal :: "Enclosure \<Rightarrow> Animal \<Rightarrow> bool" where
  "canAddAnimal e a \<longleftrightarrow>
     length (e_animals e) < to_size_t (capacity e)
     \<and> a_type a = animalType e
     \<and> preferredClimate a = climate e"

definition addAnimal :: "Animal \<Rightarrow> Enclosure \<Rightarrow> Enclosure" where
  "addAnimal a e = e\<lparr>e_animals := e_animals e @ [a]\<rparr>"

definition removeAnimal :: "int \<Rightarrow> Enclosure \<Rightarrow> Enclosure" where
  "removeAnimal uid e = e\<lparr>e_animals := filter (\<lambda>a. uniqueId a \<noteq> uid) (e_animals e)\<rparr>"

text \<open>The loop of \<^verbatim>\<open>updateAnimal\<close>: the first resident with the same identity is overwritten.\<close>

fun updateFirst :: "Animal \<Rightarrow> Animal list \<Rightarrow> Animal list" where
  "updateFirst u [] = []"
| "updateFirst u (a # as) =
     (if uniqueId a = uniqueId u then u # as else a # updateFirst u as)"

definition updateAnimal :: "Animal \<Rightarrow> Enclosure \<Rightarrow> Enclosure" where
  "updateAnimal u e = e\<lparr>e_animals := updateFirst u (e_animals e)\<rparr>"

text \<open>
  The recurring loop \<^verbatim>\<open>for (auto& enc : enclosures) if (P(enc)) { f(enc); break; }\<close>:
  the first enclosure that satisfies the test is changed, the others are left as they are.
\<close>

fun onFirst :: "(Enclosure \<Rightarrow> bool) \<Rightarrow> (Enclosure \<Rightarrow> Enclosure) \<Rightarrow> Enclosure list \<Rightarrow> Enclosure list" where
  "onFirst P f [] = []"
| "onFirst P f (e # es) = (if P e then f e # es else e # onFirst P f es)"

definition hasId :: "int \<Rightarrow> Enclosure \<Rightarrow> bool" where
  "hasId i e \<longleftrightarrow> e_id e = i"

subsection \<open>Worker\<close>

record Worker =
  w_name :: string
  w_type :: WorkerType
  salary :: int
  assignedEnclosures :: "int list"
  daysAssigned :: int
  daysWorked :: int
  maxAnimals :: int

definition Worker_ctor :: "string \<Rightarrow> WorkerType \<Rightarrow> int \<Rightarrow> int \<Rightarrow> int list \<Rightarrow> int \<Rightarrow> int \<Rightarrow> Worker" where
  "Worker_ctor n t sal maxA encs daysAss daysW =
     \<lparr>w_name = n, w_type = t, salary = sal, assignedEnclosures = encs,
      daysAssigned = daysAss, daysWorked = daysW, maxAnimals = maxA\<rparr>"

fun getSalaryForType :: "WorkerType \<Rightarrow> int" where
  "getSalaryForType DIRECTOR = 60"
| "getSalaryForType VETERINARIAN = 50"
| "getSalaryForType CLEANER = 30"
| "getSalaryForType FEEDER = 40"

definition assignEnclosure :: "int \<Rightarrow> Worker \<Rightarrow> Worker" where
  "assignEnclosure encId w =
     (if encId \<in> set (assignedEnclosures w) then w
      else w\<lparr>assignedEnclosures := assignedEnclosures w @ [encId]\<rparr>)"

definition clearAssignedEnclosures :: "Worker \<Rightarrow> Worker" where
  "clearAssignedEnclosures w = w\<lparr>assignedEnclosures := []\<rparr>"

definition setDaysAssigned :: "int \<Rightarrow> Worker \<Rightarrow> Worker" where
  "setDaysAssigned d w = w\<lparr>daysAssigned := d\<rparr>"

definition decrementDaysAssigned :: "Worker \<Rightarrow> Worker" where
  "decrementDaysAssigned w = (if daysAssigned w > 0 then w\<lparr>daysAssigned := daysAssigned w - 1\<rparr> else w)"

definition incrementDaysWorked :: "Worker \<Rightarrow> Worker" where
  "incrementDaysWorked w = w\<lparr>daysWorked := daysWorked w + 1\<rparr>"

subsection \<open>Zoo\<close>

record Zoo =
  z_name :: string
  money :: real
  food :: int
  popularity :: real
  z_animals :: "Animal list"
  enclosures :: "Enclosure list"
  workers :: "Worker list"
  loans :: "Loan list"
  day :: int
  visitors :: int
  totalAnimals :: int
  specialVisitorType :: string
  specialVisitorCount :: int
  marketAnimals :: "Animal list"
  animalsBoughtToday :: int
  nextId :: int
  randCalls :: nat

text \<open>
  \<^verbatim>\<open>Zoo::random(min, max)\<close> is \<^verbatim>\<open>min + rand() % (max - min + 1)\<close>; \<^verbatim>\<open>rand()\<close> is never
  negative. The call reads the next value of the sequence and advances the position.
\<close>

definition random :: "(nat \<Rightarrow> nat) \<Rightarrow> nat \<Rightarrow> int \<Rightarrow> int \<Rightarrow> int" where
  "random rng pos lo hi = lo + int (rng pos) mod (hi - lo + 1)"

subsection \<open>The market\<close>

text \<open>The ten species of \<^verbatim>\<open>getAvailableAnimals\<close>: name (as bytes), age, weight, climate, price, diet.\<close>

definition catalog :: "(string \<times> int \<times> real \<times> Climate \<times> int \<times> AnimalType) list" where
  "catalog =
    [(bytes [208, 158, 208, 187, 208, 181, 208, 189, 209, 140], 10, 200, TEMPERATE, 150, HERBIVORE),
     (bytes [208, 161, 208, 187, 208, 190, 208, 189], 15, 6000, TROPICAL, 350, HERBIVORE),
     (bytes [208, 150, 208, 184, 209, 128, 208, 176, 209, 132], 12, 1800, TROPICAL, 300, HERBIVORE),
     (bytes [208, 151, 208, 181, 208, 177, 209, 128, 208, 176], 8, 400, TROPICAL, 200, HERBIVORE),
     (bytes [208, 154, 209, 128, 208, 190, 208, 187, 208, 184, 208, 186], 3, 5, TEMPERATE, 100, HERBIVORE),
     (bytes [208, 155, 208, 181, 208, 178], 10, 300, TROPICAL, 400, CARNIVORE),
     (bytes [208, 146, 208, 190, 208, 187, 208, 186], 7, 150, TEMPERATE, 250, CARNIVORE),
     (bytes [208, 145, 208, 181, 208, 187, 209, 139, 208, 185, 32, 208, 188, 208, 181, 208, 180,
             208, 178, 208, 181, 208, 180, 209, 140], 14, 800, ARCTIC, 450, CARNIVORE),
     (bytes [208, 162, 208, 184, 208, 179, 209, 128], 9, 350, TROPICAL, 350, CARNIVORE),
     (bytes [208, 155, 208, 184, 209, 129, 208, 184, 209, 134, 208, 176], 5, 100, TEMPERATE, 200, CARNIVORE)]"

text \<open>
  One element of the initialiser list: the k-th element draws its sex with the k-th call of
  \<^verbatim>\<open>rand()\<close> (\<^verbatim>\<open>rand() % 2 ? MALE : FEMALE\<close>) and takes the k-th fresh identity; the
  remaining constructor arguments are the defaults.
\<close>

definition catalogAnimal ::
  "(nat \<Rightarrow> nat) \<Rightarrow> nat \<Rightarrow> int \<Rightarrow> nat \<Rightarrow> (string \<times> int \<times> real \<times> Climate \<times> int \<times> AnimalType) \<Rightarrow> Animal" where
  "catalogAnimal rng pos nid k entry =
     (case entry of (sp, age, w, c, p, t) \<Rightarrow>
        Animal_ctor sp sp age w c p t (if rng (pos + k) mod 2 \<noteq> 0 then MALE else FEMALE)
          False (- 1) 0 (None_str, None_str) False (nid + int k))"

definition getAvailableAnimals :: "(nat \<Rightarrow> nat) \<Rightarrow> nat \<Rightarrow> int \<Rightarrow> Animal list" where
  "getAvailableAnimals rng pos nid =
     map (\<lambda>k. catalogAnimal rng pos nid k (catalog ! k)) [0..<length catalog]"

text \<open>
  \<^verbatim>\<open>std::shuffle\<close> with a generator seeded from \<^verbatim>\<open>std::random_device\<close> is outside the
  program; its result, the shuffled index vector, is the parameter \<open>indices\<close>. What the
  library guarantees about it is \<open>shuffled\<close>.
\<close>

definition shuffled :: "nat list \<Rightarrow> nat \<Rightarrow> bool" where
  "shuffled indices n \<longleftrightarrow> mset indices = mset [0..<n]"

definition refreshMarket :: "(nat \<Rightarrow> nat) \<Rightarrow> nat list \<Rightarrow> Zoo \<Rightarrow> Zoo" where
  "refreshMarket rng indices z =
     (let available = getAvailableAnimals rng (randCalls z) (nextId z)
      in z\<lparr>marketAnimals :=
             map (\<lambda>i. available ! (indices ! i)) [0..<nat (min 10 (int (length available)))],
           nextId := nextId z + int (length available),
           randCalls := randCalls z + length available\<rparr>)"

text \<open>The constructor \<^verbatim>\<open>Zoo(n)\<close>, run at program start (identity counter 1, no \<^verbatim>\<open>rand()\<close> call yet).\<close>

definition Zoo_ctor :: "(nat \<Rightarrow> nat) \<Rightarrow> nat list \<Rightarrow> string \<Rightarrow> Zoo" where
  "Zoo_ctor rng indices n =
     refreshMarket rng indices
       \<lparr>z_name = n, money = 1488, food = 100, popularity = 50, z_animals = [],
        enclosures = [Enclosure_ctor 1 5 HERBIVORE TEMPERATE 10],
        workers =
          [Worker_ctor (bytes [208, 154, 46, 208, 151]) DIRECTOR (getSalaryForType DIRECTOR) 0 [] 0 0,
           Worker_ctor (bytes [209, 130, 209, 128, 208, 184, 208, 189, 208, 184, 209, 130, 208, 184])
             CLEANER (getSalaryForType CLEANER) 0 [1] 0 0,
           Worker_ctor (bytes [208, 188, 208, 190, 209, 128, 209, 132])
             VETERINARIAN (getSalaryForType VETERINARIAN) 20 [] 0 0,
           Worker_ctor (bytes [208, 180, 208, 184, 209, 132, 208, 181, 209, 128, 208, 181, 208, 189,
                               209, 129])
             FEEDER (getSalaryForType FEEDER) 0 [2] 0 0],
        loans = [], day = 1, visitors = 0, totalAnimals = 0, specialVisitorType = None_str,
        specialVisitorCount = 0, marketAnimals = [], animalsBoughtToday = 0,
        nextId = 1, randCalls = 0\<rparr>"

section \<open>The menu actions\<close>

text \<open>
  Each action of a menu is a function from the zoo and the numbers typed in to an outcome
  and the zoo afterwards. \<^verbatim>\<open>getValidInput\<close> hands a number on only when it lies in the
  range of the prompt and asks again otherwise: \<open>Reprompt\<close> is that case (nothing has
  happened yet). \<open>Caught\<close> is the \<^verbatim>\<open>catch\<close> block of \<^verbatim>\<open>manageBreeding\<close>.
\<close>

datatype outcome =
  Done | Cancelled | Reprompt | Declined | InsufficientFunds | NotSameEnclosure | NoFreePlace
  | Caught error

text \<open>\<^verbatim>\<open>v.erase(v.begin() + k)\<close>.\<close>

definition erase_at :: "nat \<Rightarrow> 'a list \<Rightarrow> 'a list" where
  "erase_at k xs = take k xs @ drop (Suc k) xs"

definition lastId :: "Zoo \<Rightarrow> int" where
  "lastId z = e_id (last (enclosures z))"

subsection \<open>\<^verbatim>\<open>manageAnimals\<close>\<close>

definition buyAnimal :: "Zoo \<Rightarrow> int \<Rightarrow> int \<Rightarrow> outcome \<times> Zoo" where
  "buyAnimal z animalChoice encId =
     (if day z > 10 \<and> animalsBoughtToday z \<ge> 1 then (Declined, z)
      else if marketAnimals z = [] then (Declined, z)
      else if animalChoice < 0 \<or> animalChoice > int (length (marketAnimals z)) then (Reprompt, z)
      else if \<not> (animalChoice \<ge> 1 \<and> animalChoice \<le> int (length (marketAnimals z)))
        then (Cancelled, z)
      else
        (let selected = marketAnimals z ! nat (animalChoice - 1) in
         if \<not> (money z \<ge> real_of_int (price selected)) then (InsufficientFunds, z)
         else if \<not> list_ex (\<lambda>e. canAddAnimal e selected) (enclosures z) then (Declined, z)
         else if encId < 1 \<or> encId > lastId z then (Reprompt, z)
         else if \<not> list_ex (\<lambda>e. e_id e = encId \<and> canAddAnimal e selected) (enclosures z)
           then (Declined, z)
         else
           (let placed = setEnclosureId encId selected in
            (Done,
             z\<lparr>enclosures :=
                 onFirst (\<lambda>e. e_id e = encId \<and> canAddAnimal e selected) (addAnimal placed)
                   (enclosures z),
               z_animals := z_animals z @ [placed],
               money := money z - real_of_int (price placed),
               totalAnimals := totalAnimals z + 1,
               animalsBoughtToday := animalsBoughtToday z + 1,
               marketAnimals := erase_at (nat (animalChoice - 1)) (marketAnimals z)\<rparr>))))"

definition sellAnimal :: "Zoo \<Rightarrow> int \<Rightarrow> outcome \<times> Zoo" where
  "sellAnimal z sellChoice =
     (if z_animals z = [] then (Declined, z)
      else if sellChoice < 0 \<or> sellChoice > int (length (z_animals z)) then (Reprompt, z)
      else if \<not> (sellChoice \<ge> 1 \<and> sellChoice \<le> int (length (z_animals z))) then (Cancelled, z)
      else
        (let sold = z_animals z ! nat (sellChoice - 1) in
         (Done,
          z\<lparr>money := money z + real_of_int (price sold sdiv 2),
            enclosures :=
              onFirst (hasId (enclosureId sold)) (removeAnimal (uniqueId sold)) (enclosures z),
            z_animals := erase_at (nat (sellChoice - 1)) (z_animals z),
            totalAnimals := totalAnimals z - 1\<rparr>)))"

definition renameAnimal :: "Zoo \<Rightarrow> int \<Rightarrow> string \<Rightarrow> outcome \<times> Zoo" where
  "renameAnimal z renameChoice newName =
     (if z_animals z = [] then (Declined, z)
      else if renameChoice < 0 \<or> renameChoice > int (length (z_animals z)) then (Reprompt, z)
      else if \<not> (renameChoice \<ge> 1 \<and> renameChoice \<le> int (length (z_animals z)))
        then (Cancelled, z)
      else if newName = [] then (Declined, z)
      else
        (let k = nat (renameChoice - 1);
             renamed = setDisplayName newName (z_animals z ! k)
         in (Done,
             z\<lparr>z_animals := (z_animals z)[k := renamed],
               enclosures :=
                 onFirst (hasId (enclosureId renamed)) (updateAnimal renamed) (enclosures z)\<rparr>)))"

definition paidRefresh :: "(nat \<Rightarrow> nat) \<Rightarrow> nat list \<Rightarrow> Zoo \<Rightarrow> outcome \<times> Zoo" where
  "paidRefresh rng indices z =
     (if money z \<ge> 50 then (Done, refreshMarket rng indices (z\<lparr>money := money z - 50\<rparr>))
      else (InsufficientFunds, z))"

subsection \<open>\<^verbatim>\<open>manageWorkers\<close>\<close>

text \<open>The numbers a sequence of \<^verbatim>\<open>getValidInput\<close> calls with one range hands on.\<close>

definition validInputs :: "int \<Rightarrow> int \<Rightarrow> int list \<Rightarrow> int list" where
  "validInputs lo hi inputs = filter (\<lambda>v. lo \<le> v \<and> v \<le> hi) inputs"

definition assignIfExists :: "Enclosure list \<Rightarrow> Worker \<Rightarrow> int \<Rightarrow> Worker" where
  "assignIfExists encs w encId = (if list_ex (hasId encId) encs then assignEnclosure encId w else w)"

text \<open>The veterinarian's dialogue at hiring: the running total of animals stays at most 20.\<close>

fun vetAssign :: "Enclosure list \<Rightarrow> int list \<Rightarrow> int \<Rightarrow> Worker \<Rightarrow> Worker" where
  "vetAssign encs [] totalAnimalsAssigned w = w"
| "vetAssign encs (encId # rest) totalAnimalsAssigned w =
     (case find (hasId encId) encs of
        None \<Rightarrow> vetAssign encs rest totalAnimalsAssigned w
      | Some enc \<Rightarrow>
          (let animalCount = int (length (e_animals enc)) in
           if totalAnimalsAssigned + animalCount > 20 then vetAssign encs rest totalAnimalsAssigned w
           else vetAssign encs rest (totalAnimalsAssigned + animalCount) (assignEnclosure encId w)))"

text \<open>
  Hiring. \<open>inputs\<close> are the enclosure numbers typed in; a dialogue ends at the first 0 (or
  when the numbers end).
\<close>

definition hireWorker :: "Zoo \<Rightarrow> string \<Rightarrow> int \<Rightarrow> int list \<Rightarrow> outcome \<times> Zoo" where
  "hireWorker z nm posChoice inputs =
     (if nm = [] \<or> posChoice < 1 \<or> posChoice > 3 then (Reprompt, z)
      else
        (let position = (if posChoice = 1 then VETERINARIAN else if posChoice = 2 then CLEANER
                         else FEEDER);
             maxA = (if posChoice = 1 then 20 else 0);
             newWorker = Worker_ctor nm position (getSalaryForType position) maxA [] 0 0;
             encs = enclosures z
         in if encs = [] then (Done, z\<lparr>workers := workers z @ [newWorker]\<rparr>)
            else if position = CLEANER then
              (case validInputs 1 (lastId z) inputs of
                 [] \<Rightarrow> (Reprompt, z)
               | encId # _ \<Rightarrow>
                   (Done, z\<lparr>workers := workers z @ [assignIfExists encs newWorker encId]\<rparr>))
            else if position = FEEDER then
              (Done,
               z\<lparr>workers := workers z @
                   [foldl (assignIfExists encs) newWorker
                      (take 2 (takeWhile (\<lambda>v. v \<noteq> 0) (validInputs 0 (lastId z) inputs)))]\<rparr>)
            else
              (Done,
               z\<lparr>workers := workers z @
                   [vetAssign encs (takeWhile (\<lambda>v. v \<noteq> 0) (validInputs 0 (lastId z) inputs))
                      0 newWorker]\<rparr>)))"

definition fireWorker :: "Zoo \<Rightarrow> int \<Rightarrow> outcome \<times> Zoo" where
  "fireWorker z fireChoice =
     (if length (workers z) \<le> 1 then (Declined, z)
      else if fireChoice < 0 \<or> fireChoice > int (length (workers z)) then (Reprompt, z)
      else if \<not> (fireChoice \<ge> 1 \<and> fireChoice \<le> int (length (workers z))) then (Cancelled, z)
      else if w_type (workers z ! nat (fireChoice - 1)) = DIRECTOR then (Declined, z)
      else (Done, z\<lparr>workers := erase_at (nat (fireChoice - 1)) (workers z)\<rparr>))"

definition INT_MAX :: int where
  "INT_MAX = 2147483647"

text \<open>
  Assigning a worker. The veterinarian block of the source only reads: its \<^verbatim>\<open>continue\<close>
  belongs to the inner \<^verbatim>\<open>for\<close> loop, so the block changes nothing and the action goes on.
\<close>

definition assignWorker :: "Zoo \<Rightarrow> int \<Rightarrow> int \<Rightarrow> int \<Rightarrow> outcome \<times> Zoo" where
  "assignWorker z workerChoice encId daysAss =
     (if workers z = [] then (Declined, z)
      else if enclosures z = [] then (Declined, z)
      else if workerChoice < 0 \<or> workerChoice > int (length (workers z)) then (Reprompt, z)
      else if workerChoice = 0 then (Cancelled, z)
      else
        (let k = nat (workerChoice - 1); selectedWorker = workers z ! k in
         if w_type selectedWorker = DIRECTOR then (Declined, z)
         else if encId < 0 \<or> encId > lastId z then (Reprompt, z)
         else if encId = 0 then (Cancelled, z)
         else if \<not> list_ex (hasId encId) (enclosures z) then (Declined, z)
         else if encId \<in> set (assignedEnclosures selectedWorker) then (Declined, z)
         else
           (let maxEnclosures = (if w_type selectedWorker = CLEANER then 1
                                 else if w_type selectedWorker = FEEDER then 2 else INT_MAX)
            in if length (assignedEnclosures selectedWorker) \<ge> to_size_t maxEnclosures
               then (Declined, z)
               else if daysAss < 1 \<or> daysAss > 365 then (Reprompt, z)
               else
                 (Done,
                  z\<lparr>workers :=
                      (workers z)[k := setDaysAssigned daysAss
                                         (assignEnclosure encId selectedWorker)]\<rparr>))))"

subsection \<open>\<^verbatim>\<open>managePurchases\<close>\<close>

definition buyFood :: "Zoo \<Rightarrow> int \<Rightarrow> outcome \<times> Zoo" where
  "buyFood z foodAmount =
     (if foodAmount < 0 \<or> foodAmount > 10000 then (Reprompt, z)
      else if money z \<ge> real_of_int (foodAmount * 2)
        then (Done, z\<lparr>food := food z + foodAmount,
                      money := money z - real_of_int (foodAmount * 2)\<rparr>)
      else (InsufficientFunds, z))"

definition advertise :: "Zoo \<Rightarrow> int \<Rightarrow> outcome \<times> Zoo" where
  "advertise z adSpend =
     (if adSpend < 0 \<or> adSpend > 10000 then (Reprompt, z)
      else if money z \<ge> real_of_int adSpend
        then (Done, z\<lparr>popularity := popularity z + real_of_int ((adSpend sdiv 200) * 5),
                      money := money z - real_of_int adSpend\<rparr>)
      else (InsufficientFunds, z))"

text \<open>
  Borrowing. The ranges of the two prompts keep the constructor from throwing; were it to
  throw, nothing in the menu would catch it.
\<close>

definition takeLoan :: "Zoo \<Rightarrow> int \<Rightarrow> int \<Rightarrow> outcome \<times> Zoo" where
  "takeLoan z amount d =
     (if amount < 1 \<or> amount > 1000000 \<or> d < 1 \<or> d > 20 then (Reprompt, z)
      else
        (case Loan_ctor (real_of_int amount) d default_rate of
           Inl e \<Rightarrow> (Caught e, z)
         | Inr l \<Rightarrow> (Done, z\<lparr>loans := loans z @ [l], money := money z + real_of_int amount\<rparr>)))"

subsection \<open>\<^verbatim>\<open>manageEnclosures\<close>\<close>

definition buildEnclosure :: "Zoo \<Rightarrow> int \<Rightarrow> int \<Rightarrow> int \<Rightarrow> outcome \<times> Zoo" where
  "buildEnclosure z cap typeChoice climateChoice =
     (if cap < 1 \<or> cap > 100 \<or> typeChoice < 1 \<or> typeChoice > 2
         \<or> climateChoice < 1 \<or> climateChoice > 3 then (Reprompt, z)
      else
        (let animalType = (if typeChoice = 1 then HERBIVORE else CARNIVORE);
             climate = (if climateChoice = 1 then TROPICAL
                        else if climateChoice = 2 then TEMPERATE
                        else if climateChoice = 3 then ARCTIC else TEMPERATE);
             cost = cap * 50
         in if money z \<ge> real_of_int cost then
              (let newId = (if enclosures z = [] then 1 else lastId z + 1) in
               (Done,
                z\<lparr>enclosures := enclosures z @ [Enclosure_ctor newId cap animalType climate (cap * 2)],
                  money := money z - real_of_int cost\<rparr>))
            else (InsufficientFunds, z)))"

subsection \<open>\<^verbatim>\<open>manageBreeding\<close>\<close>

definition manageBreeding :: "(nat \<Rightarrow> nat) \<Rightarrow> Zoo \<Rightarrow> int \<Rightarrow> int \<Rightarrow> outcome \<times> Zoo" where
  "manageBreeding rng z first second =
     (if length (z_animals z) < 2 then (Declined, z)
      else if first < 0 \<or> first > int (length (z_animals z)) then (Reprompt, z)
      else if first = 0 then (Cancelled, z)
      else if second < 0 \<or> second > int (length (z_animals z)) then (Reprompt, z)
      else if second = 0 then (Cancelled, z)
      else if first = second then (Declined, z)
      else
        (let a = z_animals z ! nat (first - 1);
             b = z_animals z ! nat (second - 1)
         in if enclosureId a \<noteq> enclosureId b then (NotSameEnclosure, z)
            else if \<not> list_ex (\<lambda>e. e_id e = enclosureId a \<and> canAddAnimal e a) (enclosures z)
              then (NoFreePlace, z)
            else
              (case operator_plus a b (rng (randCalls z)) (nextId z) of
                 Inl e \<Rightarrow> (Caught e, z)
               | Inr newborn \<Rightarrow>
                   (Done,
                    z\<lparr>enclosures :=
                        onFirst (hasId (enclosureId newborn)) (addAnimal newborn) (enclosures z),
                      z_animals := z_animals z @ [newborn],
                      totalAnimals := totalAnimals z + 1,
                      nextId := nextId z + 1,
                      randCalls := randCalls z + 1\<rparr>))))"

section \<open>The day advance\<close>

text \<open>
  \<^verbatim>\<open>nextDay\<close> is a sequence of loops over the collections; each loop is one function below,
  in the order of the source.
\<close>

subsection \<open>Ageing and death of old age\<close>

text \<open>The removal of a dead animal from the first enclosure that carries its enclosure number.\<close>

definition detach :: "Animal \<Rightarrow> Enclosure list \<Rightarrow> Enclosure list" where
  "detach a encs = onFirst (hasId (enclosureId a)) (removeAnimal (uniqueId a)) encs"

text \<open>
  The iterator loop over the registry. The first argument is the part of the vector the
  iterator has not visited; the result is the part of it that is kept, and the zoo with the
  enclosures, the counter and the position in the random sequence as the loop leaves them.
  The roll is drawn only when the age exceeds 30 (\<^verbatim>\<open>&&\<close>).
\<close>

fun ageLoop :: "(nat \<Rightarrow> nat) \<Rightarrow> Animal list \<Rightarrow> Zoo \<Rightarrow> Animal list \<times> Zoo" where
  "ageLoop rng [] z = ([], z)"
| "ageLoop rng (a # rest) z =
     (let it = incrementAgeDays (incrementDaysSincePurchase a) in
      if ageDays it > 30 then
        (if random rng (randCalls z) 0 99 < ageDays it then
           ageLoop rng rest
             (z\<lparr>randCalls := randCalls z + 1,
                enclosures := detach it (enclosures z),
                totalAnimals := totalAnimals z - 1\<rparr>)
         else
           (case ageLoop rng rest (z\<lparr>randCalls := randCalls z + 1\<rparr>) of
              (kept, z') \<Rightarrow> (it # kept, z')))
      else
        (case ageLoop rng rest z of (kept, z') \<Rightarrow> (it # kept, z')))"

definition agePhase :: "(nat \<Rightarrow> nat) \<Rightarrow> Zoo \<Rightarrow> Zoo" where
  "agePhase rng z = (case ageLoop rng (z_animals z) z of (kept, z') \<Rightarrow> z'\<lparr>z_animals := kept\<rparr>)"

subsection \<open>Workers\<close>

definition workerDay :: "Worker \<Rightarrow> Worker" where
  "workerDay w =
     (let w' = decrementDaysAssigned (incrementDaysWorked w) in
      if daysAssigned w' = 0 then clearAssignedEnclosures w' else w')"

definition workerPhase :: "Zoo \<Rightarrow> Zoo" where
  "workerPhase z = z\<lparr>workers := map workerDay (workers z)\<rparr>"

subsection \<open>Sickness and treatment\<close>

fun sickLoop :: "(nat \<Rightarrow> nat) \<Rightarrow> nat \<Rightarrow> Animal list \<Rightarrow> Animal list \<times> nat" where
  "sickLoop rng pos [] = ([], pos)"
| "sickLoop rng pos (a # rest) =
     (if \<not> isSick a then
        (case sickLoop rng (pos + 1) rest of
           (as, pos') \<Rightarrow> ((if random rng pos 0 99 < 10 then setSick True a else a) # as, pos'))
      else
        (case sickLoop rng pos rest of (as, pos') \<Rightarrow> (a # as, pos')))"

definition sickPhase :: "(nat \<Rightarrow> nat) \<Rightarrow> Zoo \<Rightarrow> Zoo" where
  "sickPhase rng z =
     (case sickLoop rng (randCalls z) (z_animals z) of
        (as, pos') \<Rightarrow> z\<lparr>z_animals := as, randCalls := pos'\<rparr>)"

text \<open>The inner loop of one veterinarian over the registry, with the counter \<^verbatim>\<open>treated\<close>.\<close>

fun treatLoop :: "Worker \<Rightarrow> int \<Rightarrow> Animal list \<Rightarrow> Enclosure list \<Rightarrow> Animal list \<times> Enclosure list" where
  "treatLoop w treated [] encs = ([], encs)"
| "treatLoop w treated (a # rest) encs =
     (if isSick a \<and> treated < maxAnimals w \<and> enclosureId a \<in> set (assignedEnclosures w) then
        (let healed = setSick False a in
         case treatLoop w (treated + 1) rest
                (onFirst (hasId (enclosureId healed)) (updateAnimal healed) encs) of
           (as, encs') \<Rightarrow> (healed # as, encs'))
      else
        (case treatLoop w treated rest encs of (as, encs') \<Rightarrow> (a # as, encs')))"

fun vetLoop :: "Worker list \<Rightarrow> Animal list \<times> Enclosure list \<Rightarrow> Animal list \<times> Enclosure list" where
  "vetLoop [] st = st"
| "vetLoop (w # ws) (as, encs) =
     (if w_type w = VETERINARIAN \<and> daysAssigned w > 0
      then vetLoop ws (treatLoop w 0 as encs)
      else vetLoop ws (as, encs))"

definition vetPhase :: "Zoo \<Rightarrow> Zoo" where
  "vetPhase z =
     (case vetLoop (workers z) (z_animals z, enclosures z) of
        (as, encs) \<Rightarrow> z\<lparr>z_animals := as, enclosures := encs\<rparr>)"

subsection \<open>Feeding and starvation\<close>

definition foodNeeded :: "Animal list \<Rightarrow> int" where
  "foodNeeded as = foldl (\<lambda>n a. n + (if a_type a = HERBIVORE then 1 else 2)) 0 as"

fun starveLoop :: "(nat \<Rightarrow> nat) \<Rightarrow> Animal list \<Rightarrow> Zoo \<Rightarrow> Animal list \<times> Zoo" where
  "starveLoop rng [] z = ([], z)"
| "starveLoop rng (a # rest) z =
     (if random rng (randCalls z) 0 99 < 30 then
        starveLoop rng rest
          (z\<lparr>randCalls := randCalls z + 1,
             enclosures := detach a (enclosures z),
             totalAnimals := totalAnimals z - 1\<rparr>)
      else
        (case starveLoop rng rest (z\<lparr>randCalls := randCalls z + 1\<rparr>) of
           (kept, z') \<Rightarrow> (a # kept, z')))"

definition feedPhase :: "(nat \<Rightarrow> nat) \<Rightarrow> Zoo \<Rightarrow> Zoo" where
  "feedPhase rng z =
     (if food z \<ge> foodNeeded (z_animals z) then z\<lparr>food := food z - foodNeeded (z_animals z)\<rparr>
      else (case starveLoop rng (z_animals z) z of (kept, z') \<Rightarrow> z'\<lparr>z_animals := kept\<rparr>))"

subsection \<open>Popularity, visitors, money, loans\<close>

text \<open>\<^verbatim>\<open>static_cast<int>\<close> of a \<^verbatim>\<open>double\<close>: truncation towards zero.\<close>

definition to_int :: "real \<Rightarrow> int" where
  "to_int x = (if x \<ge> 0 then \<lfloor>x\<rfloor> else \<lceil>x\<rceil>)"

definition driftPhase :: "(nat \<Rightarrow> nat) \<Rightarrow> Zoo \<Rightarrow> Zoo" where
  "driftPhase rng z =
     (let p1 = popularity z * (1 + real_of_int (random rng (randCalls z) (- 10) 10) / 100);
          sickCount = int (length (filter isSick (z_animals z)));
          p2 = p1 - real_of_int sickCount
      in z\<lparr>popularity := (if p2 < 0 then 0 else p2), randCalls := randCalls z + 1\<rparr>)"

definition visitorsPhase :: "(nat \<Rightarrow> nat) \<Rightarrow> Zoo \<Rightarrow> Zoo" where
  "visitorsPhase rng z =
     (let specialRoll = random rng (randCalls z) 0 99;
          z1 = z\<lparr>visitors := to_int (popularity z), randCalls := randCalls z + 1\<rparr>
      in if specialRoll < 20 then z1\<lparr>specialVisitorType := None_str, specialVisitorCount := 0\<rparr>
         else if specialRoll < 30 then
           (let c = random rng (randCalls z1) 1 2 in
            z1\<lparr>specialVisitorType := ''Celebrity'', specialVisitorCount := c,
               popularity := popularity z1 + real_of_int (c * 10),
               randCalls := randCalls z1 + 1\<rparr>)
         else if specialRoll < 50 then
           (let c = random rng (randCalls z1) 1 3 in
            z1\<lparr>specialVisitorType := ''Photographer'', specialVisitorCount := c,
               popularity := popularity z1 + real_of_int (c * 5),
               randCalls := randCalls z1 + 1\<rparr>)
         else z1)"

definition moneyPhase :: "Zoo \<Rightarrow> Zoo" where
  "moneyPhase z =
     (let m1 = money z + real_of_int (visitors z * totalAnimals z);
          m2 = foldl (\<lambda>m w. m - real_of_int (salary w)) m1 (workers z);
          m3 = foldl (\<lambda>m e. m - real_of_int (dailyCost e)) m2 (enclosures z)
      in z\<lparr>money := m3\<rparr>)"

definition loanDay :: "Loan \<Rightarrow> Loan" where
  "loanDay l = (if daysLeft l > 0 then l\<lparr>daysLeft := daysLeft l - 1\<rparr> else l)"

definition loanPhase :: "Zoo \<Rightarrow> Zoo" where
  "loanPhase z =
     z\<lparr>money := foldl (\<lambda>m l. if daysLeft l > 0 then m - dailyRepayment l else m) (money z) (loans z),
       loans := filter (\<lambda>l. \<not> daysLeft l \<le> 0) (map loanDay (loans z))\<rparr>"

subsection \<open>\<^verbatim>\<open>nextDay\<close>\<close>

definition startDay :: "(nat \<Rightarrow> nat) \<Rightarrow> nat list \<Rightarrow> Zoo \<Rightarrow> Zoo" where
  "startDay rng indices z =
     (refreshMarket rng indices (z\<lparr>day := day z + 1, animalsBoughtToday := 0\<rparr>))
       \<lparr>specialVisitorType := None_str, specialVisitorCount := 0\<rparr>"

definition nextDay :: "(nat \<Rightarrow> nat) \<Rightarrow> nat list \<Rightarrow> Zoo \<Rightarrow> Zoo" where
  "nextDay rng indices z =
     loanPhase (moneyPhase (visitorsPhase rng (driftPhase rng (feedPhase rng (vetPhase
       (sickPhase rng (workerPhase (agePhase rng (startDay rng indices z)))))))))"

section \<open>Reachable states\<close>

text \<open>
  The states of a game: the constructor's state, and every state an action of a menu or
  the day advance leads to. The shuffle of a market refresh is any permutation.
\<close>

inductive reachable :: "(nat \<Rightarrow> nat) \<Rightarrow> Zoo \<Rightarrow> bool" for rng :: "nat \<Rightarrow> nat" where
  r_init: "shuffled indices (length catalog) \<Longrightarrow> reachable rng (Zoo_ctor rng indices n)"
| r_buy: "reachable rng z \<Longrightarrow> reachable rng (snd (buyAnimal z animalChoice encId))"
| r_sell: "reachable rng z \<Longrightarrow> reachable rng (snd (sellAnimal z sellChoice))"
| r_rename: "reachable rng z \<Longrightarrow> reachable rng (snd (renameAnimal z renameChoice newName))"
| r_refresh: "reachable rng z \<Longrightarrow> shuffled indices (length catalog) \<Longrightarrow>
     reachable rng (snd (paidRefresh rng indices z))"
| r_hire: "reachable rng z \<Longrightarrow> reachable rng (snd (hireWorker z nm posChoice inputs))"
| r_fire: "reachable rng z \<Longrightarrow> reachable rng (snd (fireWorker z fireChoice))"
| r_assign: "reachable rng z \<Longrightarrow> reachable rng (snd (assignWorker z workerChoice encId daysAss))"
| r_food: "reachable rng z \<Longrightarrow> reachable rng (snd (buyFood z foodAmount))"
| r_advertise: "reachable rng z \<Longrightarrow> reachable rng (snd (advertise z adSpend))"
| r_loan: "reachable rng z \<Longrightarrow> reachable rng (snd (takeLoan z amount d))"
| r_build: "reachable rng z \<Longrightarrow> reachable rng (snd (buildEnclosure z cap typeChoice climateChoice))"
| r_breed: "reachable rng z \<Longrightarrow> reachable rng (snd (manageBreeding rng z first second))"
| r_day: "reachable rng z \<Longrightarrow> shuffled indices (length catalog) \<Longrightarrow>
     reachable rng (nextDay rng indices z)"

section \<open>Example states\<close>

text \<open>
  A small zoo used to instantiate the theorems: the first enclosure of the game with a
  female deer and a young female rabbit in it, and one loan.
\<close>

definition ex_deer :: Animal where
  "ex_deer = Animal_ctor ''Deer'' ''Deer'' 10 200 TEMPERATE 150 HERBIVORE FEMALE False 1 0
               (None_str, None_str) False 1"

definition ex_rabbit :: Animal where
  "ex_rabbit = Animal_ctor ''Rabbit'' ''Rabbit'' 3 5 TEMPERATE 100 HERBIVORE FEMALE False 1 0
                 (None_str, None_str) False 5"

definition ex_zoo :: Zoo where
  "ex_zoo =
     \<lparr>z_name = ''Zoo'', money = 1238, food = 100, popularity = 50,
      z_animals = [ex_deer, ex_rabbit],
      enclosures = [(Enclosure_ctor 1 5 HERBIVORE TEMPERATE 10)\<lparr>e_animals := [ex_deer, ex_rabbit]\<rparr>],
      workers = [Worker_ctor ''Boss'' DIRECTOR 60 0 [] 0 0],
      loans = [], day = 1, visitors = 0, totalAnimals = 2, specialVisitorType = None_str,
      specialVisitorCount = 0, marketAnimals = [], animalsBoughtToday = 2,
      nextId = 11, randCalls = 10\<rparr>"

text \<open>The initial state of a game whose \<^verbatim>\<open>rand()\<close> returns 0 throughout, the market unshuffled.\<close>

definition ex_start :: Zoo where
  "ex_start = Zoo_ctor (\<lambda>n. 0) [0..<10] ''Zoo''"

text \<open>
  A game in which the first ten calls of \<^verbatim>\<open>rand()\<close> return 0 and the later ones 1: the
  player buys the deer of the first market (a female), pays for a new market and buys its
  deer (a male); both live in enclosure 1.
\<close>

definition ex_rng :: "nat \<Rightarrow> nat" where
  "ex_rng n = (if n < 10 then 0 else 1)"

definition ex_pair_zoo :: Zoo where
  "ex_pair_zoo =
     snd (buyAnimal (snd (paidRefresh ex_rng [0..<10]
            (snd (buyAnimal (Zoo_ctor ex_rng [0..<10] ''Zoo'') 1 1)))) 1 1)"

definition ex_deer_f :: Animal where
  "ex_deer_f = setEnclosureId 1 (catalogAnimal ex_rng 0 1 0 (catalog ! 0))"

definition ex_deer_m :: Animal where
  "ex_deer_m = setEnclosureId 1 (catalogAnimal ex_rng 10 11 0 (catalog ! 0))"

definition ex_pair_enclosure :: Enclosure where
  "ex_pair_enclosure =
     addAnimal ex_deer_m (addAnimal ex_deer_f (Enclosure_ctor 1 5 HERBIVORE TEMPERATE 10))"

text \<open>
  The initial zoo after borrowing 1000 for 10 days; the small zoo with a deer of 120 days
  and two of 49 days beside the rabbit; and the small zoo with one unit of food left.
\<close>

definition ex_loan_zoo :: Zoo where
  "ex_loan_zoo = snd (takeLoan ex_start 1000 10)"

definition ex_elder :: Animal where
  "ex_elder = ex_deer\<lparr>ageDays := 120\<rparr>"

definition ex_mid_a :: Animal where
  "ex_mid_a = ex_deer\<lparr>ageDays := 49, uniqueId := 2\<rparr>"

definition ex_mid_b :: Animal where
  "ex_mid_b = ex_deer\<lparr>ageDays := 49, uniqueId := 3\<rparr>"

definition ex_old_zoo :: Zoo where
  "ex_old_zoo =
     ex_zoo\<lparr>z_animals := [ex_elder, ex_mid_a, ex_mid_b, ex_rabbit],
            enclosures := [(Enclosure_ctor 1 5 HERBIVORE TEMPERATE 10)
                             \<lparr>e_animals := [ex_elder, ex_mid_a, ex_mid_b, ex_rabbit]\<rparr>],
            totalAnimals := 4\<rparr>"

text \<open>
  A \<^verbatim>\<open>rand()\<close> sequence whose values differ: the call at position 11 returns 10, every
  other call returns 180 (a roll of 80 in the range 0 to 99).
\<close>

definition ex_roll_rng :: "nat \<Rightarrow> nat" where
  "ex_roll_rng n = (if n = 11 then 10 else 180)"

definition ex_hungry_zoo :: Zoo where
  "ex_hungry_zoo = ex_zoo\<lparr>food := 1\<rparr>"

section \<open>The claims' own wording\<close>

text \<open>
  The clearing rule of the worker loop as claim C8 words it: the assignments are emptied
  when the decrement takes the positive counter to 0, and are kept otherwise.
\<close>

definition cleared_on_countdown_only :: "Worker \<Rightarrow> Worker \<Rightarrow> bool" where
  "cleared_on_countdown_only w w' \<longleftrightarrow>
     assignedEnclosures w' =
       (if daysAssigned w > 0 \<and> daysAssigned w' = 0 then [] else assignedEnclosures w)"

section \<open>Notions the theorems are stated with\<close>

text \<open>
  \<open>untilLoans\<close> is the day advance up to, not including, its loan loop; \<open>advanceDays\<close>
  is a run of day advances, one shuffle each; \<open>countdown n\<close> is a loan list n days later.
\<close>

definition untilLoans :: "(nat \<Rightarrow> nat) \<Rightarrow> nat list \<Rightarrow> Zoo \<Rightarrow> Zoo" where
  "untilLoans rng indices z =
     moneyPhase (visitorsPhase rng (driftPhase rng (feedPhase rng (vetPhase
       (sickPhase rng (workerPhase (agePhase rng (startDay rng indices z))))))))"

fun advanceDays :: "(nat \<Rightarrow> nat) \<Rightarrow> nat list list \<Rightarrow> Zoo \<Rightarrow> Zoo" where
  "advanceDays rng [] z = z"
| "advanceDays rng (indices # rest) z = advanceDays rng rest (nextDay rng indices z)"

definition countdown :: "int \<Rightarrow> Loan list \<Rightarrow> Loan list" where
  "countdown n ls = map (\<lambda>l. l\<lparr>daysLeft := daysLeft l - n\<rparr>) (filter (\<lambda>l. daysLeft l > n) ls)"

text \<open>
  Starvation, in the words of claim C3: the animal at position \<open>i\<close> of the registry has its
  own roll, the \<open>i\<close>-th value after the position the loop starts at; it starves when the
  roll is below 30. The demand is one unit per herbivore and two per carnivore.
\<close>

definition starveRoll :: "(nat \<Rightarrow> nat) \<Rightarrow> nat \<Rightarrow> nat \<Rightarrow> int" where
  "starveRoll rng pos i = random rng (pos + i) 0 99"

definition starved :: "(nat \<Rightarrow> nat) \<Rightarrow> nat \<Rightarrow> Animal list \<Rightarrow> Animal list" where
  "starved rng pos as = map (\<lambda>i. as ! i) (filter (\<lambda>i. starveRoll rng pos i < 30) [0..<length as])"

definition spared :: "(nat \<Rightarrow> nat) \<Rightarrow> nat \<Rightarrow> Animal list \<Rightarrow> Animal list" where
  "spared rng pos as = map (\<lambda>i. as ! i) (filter (\<lambda>i. \<not> starveRoll rng pos i < 30) [0..<length as])"

definition foodDemand :: "Animal list \<Rightarrow> int" where
  "foodDemand as = int (length (filter (\<lambda>a. a_type a = HERBIVORE) as))
                   + 2 * int (length (filter (\<lambda>a. a_type a = CARNIVORE) as))"

text \<open>
  An animal is absent from its enclosure when the first enclosure carrying its enclosure
  number has no resident with its identity.
\<close>

definition absent :: "Animal \<Rightarrow> Enclosure list \<Rightarrow> bool" where
  "absent a encs \<longleftrightarrow>
     (case find (hasId (enclosureId a)) encs of
        None \<Rightarrow> True
      | Some e \<Rightarrow> uniqueId a \<notin> uniqueId ` set (e_animals e))"

text \<open>
  Old age, in the words of claim C2: every animal grows one day older; the animals whose
  new age exceeds 30 each take one roll, in registry order, and such an animal dies when
  its roll is below its new age.
\<close>

definition grow :: "Animal \<Rightarrow> Animal" where
  "grow a = a\<lparr>ageDays := ageDays a + 1, daysSincePurchase := daysSincePurchase a + 1\<rparr>"

definition ageRollIndex :: "Animal list \<Rightarrow> nat \<Rightarrow> nat" where
  "ageRollIndex as i = length (filter (\<lambda>a. ageDays a + 1 > 30) (take i as))"

definition diesOfAge :: "(nat \<Rightarrow> nat) \<Rightarrow> nat \<Rightarrow> Animal list \<Rightarrow> nat \<Rightarrow> bool" where
  "diesOfAge rng pos as i \<longleftrightarrow>
     ageDays (as ! i) + 1 > 30
     \<and> random rng (pos + ageRollIndex as i) 0 99 < ageDays (as ! i) + 1"

definition deadOfAge :: "(nat \<Rightarrow> nat) \<Rightarrow> nat \<Rightarrow> Animal list \<Rightarrow> Animal list" where
  "deadOfAge rng pos as = map (\<lambda>i. grow (as ! i)) (filter (diesOfAge rng pos as) [0..<length as])"

definition survivors :: "(nat \<Rightarrow> nat) \<Rightarrow> nat \<Rightarrow> Animal list \<Rightarrow> Animal list" where
  "survivors rng pos as =
     map (\<lambda>i. grow (as ! i)) (filter (\<lambda>i. \<not> diesOfAge rng pos as i) [0..<length as])"

section \<open>The invariant of the game\<close>

text \<open>
  \<open>enc_static\<close> is what no action changes in an enclosure once it is built. \<open>fits\<close> is the
  compatibility of an animal with an enclosure, \<open>enclosure_ok\<close> the property of claim C1 for
  one enclosure. \<open>zoo_inv\<close> adds what is needed to carry it through every action: the
  enclosure numbers increase along the list, no enclosure is larger than the menu allows,
  every animal of the registry names an enclosure of its diet and climate, prices are not
  negative, and the offers of the market carry identities below the next fresh one.
  \<open>akin\<close> relates an animal to a later copy of it.
\<close>

definition enc_static :: "Enclosure \<Rightarrow> int \<times> int \<times> AnimalType \<times> Climate \<times> int" where
  "enc_static e = (e_id e, capacity e, animalType e, climate e, dailyCost e)"

definition fits :: "Animal \<Rightarrow> Enclosure \<Rightarrow> bool" where
  "fits a e \<longleftrightarrow> a_type a = animalType e \<and> preferredClimate a = climate e"

definition enclosure_ok :: "Enclosure \<Rightarrow> bool" where
  "enclosure_ok e \<longleftrightarrow>
     (\<forall>a \<in> set (e_animals e). fits a e) \<and> int (length (e_animals e)) \<le> capacity e"

definition encs_inv :: "Enclosure list \<Rightarrow> bool" where
  "encs_inv encs \<longleftrightarrow>
     sorted_wrt (<) (map e_id encs) \<and> (\<forall>e \<in> set encs. enclosure_ok e \<and> capacity e \<le> 100)"

definition housed :: "Enclosure list \<Rightarrow> Animal \<Rightarrow> bool" where
  "housed encs a \<longleftrightarrow> (\<exists>e \<in> set encs. e_id e = enclosureId a \<and> fits a e)"

definition zoo_inv :: "Zoo \<Rightarrow> bool" where
  "zoo_inv z \<longleftrightarrow>
     encs_inv (enclosures z)
     \<and> (\<forall>a \<in> set (z_animals z). housed (enclosures z) a \<and> 0 \<le> price a)
     \<and> (\<forall>a \<in> set (marketAnimals z). 0 \<le> price a \<and> uniqueId a < nextId z)"

definition akin :: "Animal \<Rightarrow> Animal \<Rightarrow> bool" where
  "akin a' a \<longleftrightarrow>
     enclosureId a' = enclosureId a \<and> a_type a' = a_type a
     \<and> preferredClimate a' = preferredClimate a \<and> price a' = price a"

definition all_akin :: "Animal list \<Rightarrow> Animal list \<Rightarrow> bool" where
  "all_akin as' as \<longleftrightarrow> (\<forall>a' \<in> set as'. \<exists>a \<in> set as. akin a' a)"

definition core_inv :: "Zoo \<Rightarrow> bool" where
  "core_inv z \<longleftrightarrow>
     encs_inv (enclosures z) \<and> (\<forall>a \<in> set (z_animals z). housed (enclosures z) a \<and> 0 \<le> price a)"

definition market_inv :: "Zoo \<Rightarrow> bool" where
  "market_inv z \<longleftrightarrow> (\<forall>a \<in> set (marketAnimals z). 0 \<le> price a \<and> uniqueId a < nextId z)"

section \<open>What each phase of the day leaves alone\<close>

lemma ageLoop_fields:
  "workers (snd (ageLoop rng as z)) = workers z"
  "loans (snd (ageLoop rng as z)) = loans z"
  "money (snd (ageLoop rng as z)) = money z"
  "food (snd (ageLoop rng as z)) = food z"
  "popularity (snd (ageLoop rng as z)) = popularity z"
  "marketAnimals (snd (ageLoop rng as z)) = marketAnimals z"
  "nextId (snd (ageLoop rng as z)) = nextId z"
  "day (snd (ageLoop rng as z)) = day z"
  by (induction as arbitrary: z; simp add: Let_def split_beta)+

lemma starveLoop_fields:
  "workers (snd (starveLoop rng as z)) = workers z"
  "loans (snd (starveLoop rng as z)) = loans z"
  "money (snd (starveLoop rng as z)) = money z"
  "food (snd (starveLoop rng as z)) = food z"
  "popularity (snd (starveLoop rng as z)) = popularity z"
  "marketAnimals (snd (starveLoop rng as z)) = marketAnimals z"
  "nextId (snd (starveLoop rng as z)) = nextId z"
  "day (snd (starveLoop rng as z)) = day z"
  by (induction as arbitrary: z; simp add: Let_def split_beta)+

lemma agePhase_fields:
  "workers (agePhase rng z) = workers z"
  "loans (agePhase rng z) = loans z"
  "money (agePhase rng z) = money z"
  "food (agePhase rng z) = food z"
  "popularity (agePhase rng z) = popularity z"
  "marketAnimals (agePhase rng z) = marketAnimals z"
  "nextId (agePhase rng z) = nextId z"
  by (simp_all add: agePhase_def split_beta ageLoop_fields)

lemma feedPhase_fields:
  "workers (feedPhase rng z) = workers z"
  "loans (feedPhase rng z) = loans z"
  "money (feedPhase rng z) = money z"
  "popularity (feedPhase rng z) = popularity z"
  "marketAnimals (feedPhase rng z) = marketAnimals z"
  "nextId (feedPhase rng z) = nextId z"
  by (simp_all add: feedPhase_def split_beta starveLoop_fields)

lemma workerPhase_fields:
  "loans (workerPhase z) = loans z"
  "money (workerPhase z) = money z"
  "food (workerPhase z) = food z"
  "popularity (workerPhase z) = popularity z"
  "marketAnimals (workerPhase z) = marketAnimals z"
  "nextId (workerPhase z) = nextId z"
  "z_animals (workerPhase z) = z_animals z"
  "enclosures (workerPhase z) = enclosures z"
  "totalAnimals (workerPhase z) = totalAnimals z"
  "randCalls (workerPhase z) = randCalls z"
  by (simp_all add: workerPhase_def)

lemma sickPhase_fields:
  "workers (sickPhase rng z) = workers z"
  "loans (sickPhase rng z) = loans z"
  "money (sickPhase rng z) = money z"
  "food (sickPhase rng z) = food z"
  "popularity (sickPhase rng z) = popularity z"
  "marketAnimals (sickPhase rng z) = marketAnimals z"
  "nextId (sickPhase rng z) = nextId z"
  "enclosures (sickPhase rng z) = enclosures z"
  "totalAnimals (sickPhase rng z) = totalAnimals z"
  by (simp_all add: sickPhase_def split_beta)

lemma vetPhase_fields:
  "workers (vetPhase z) = workers z"
  "loans (vetPhase z) = loans z"
  "money (vetPhase z) = money z"
  "food (vetPhase z) = food z"
  "popularity (vetPhase z) = popularity z"
  "marketAnimals (vetPhase z) = marketAnimals z"
  "nextId (vetPhase z) = nextId z"
  "totalAnimals (vetPhase z) = totalAnimals z"
  "randCalls (vetPhase z) = randCalls z"
  by (simp_all add: vetPhase_def split_beta)

lemma driftPhase_fields:
  "workers (driftPhase rng z) = workers z"
  "loans (driftPhase rng z) = loans z"
  "money (driftPhase rng z) = money z"
  "food (driftPhase rng z) = food z"
  "marketAnimals (driftPhase rng z) = marketAnimals z"
  "nextId (driftPhase rng z) = nextId z"
  "z_animals (driftPhase rng z) = z_animals z"
  "enclosures (driftPhase rng z) = enclosures z"
  "totalAnimals (driftPhase rng z) = totalAnimals z"
  by (simp_all add: driftPhase_def Let_def)

lemma visitorsPhase_fields:
  "workers (visitorsPhase rng z) = workers z"
  "loans (visitorsPhase rng z) = loans z"
  "money (visitorsPhase rng z) = money z"
  "food (visitorsPhase rng z) = food z"
  "marketAnimals (visitorsPhase rng z) = marketAnimals z"
  "nextId (visitorsPhase rng z) = nextId z"
  "z_animals (visitorsPhase rng z) = z_animals z"
  "enclosures (visitorsPhase rng z) = enclosures z"
  "totalAnimals (visitorsPhase rng z) = totalAnimals z"
  "visitors (visitorsPhase rng z) = to_int (popularity z)"
  by (simp_all add: visitorsPhase_def Let_def)

lemma moneyPhase_fields:
  "workers (moneyPhase z) = workers z"
  "loans (moneyPhase z) = loans z"
  "food (moneyPhase z) = food z"
  "popularity (moneyPhase z) = popularity z"
  "marketAnimals (moneyPhase z) = marketAnimals z"
  "nextId (moneyPhase z) = nextId z"
  "z_animals (moneyPhase z) = z_animals z"
  "enclosures (moneyPhase z) = enclosures z"
  "totalAnimals (moneyPhase z) = totalAnimals z"
  "visitors (moneyPhase z) = visitors z"
  by (simp_all add: moneyPhase_def Let_def)

lemma loanPhase_fields:
  "workers (loanPhase z) = workers z"
  "food (loanPhase z) = food z"
  "popularity (loanPhase z) = popularity z"
  "marketAnimals (loanPhase z) = marketAnimals z"
  "nextId (loanPhase z) = nextId z"
  "z_animals (loanPhase z) = z_animals z"
  "enclosures (loanPhase z) = enclosures z"
  "totalAnimals (loanPhase z) = totalAnimals z"
  "visitors (loanPhase z) = visitors z"
  by (simp_all add: loanPhase_def)

lemma refreshMarket_fields:
  "workers (refreshMarket rng indices z) = workers z"
  "loans (refreshMarket rng indices z) = loans z"
  "money (refreshMarket rng indices z) = money z"
  "food (refreshMarket rng indices z) = food z"
  "popularity (refreshMarket rng indices z) = popularity z"
  "z_animals (refreshMarket rng indices z) = z_animals z"
  "enclosures (refreshMarket rng indices z) = enclosures z"
  "totalAnimals (refreshMarket rng indices z) = totalAnimals z"
  "day (refreshMarket rng indices z) = day z"
  by (simp_all add: refreshMarket_def Let_def)

lemma startDay_fields:
  "workers (startDay rng indices z) = workers z"
  "loans (startDay rng indices z) = loans z"
  "money (startDay rng indices z) = money z"
  "food (startDay rng indices z) = food z"
  "popularity (startDay rng indices z) = popularity z"
  "z_animals (startDay rng indices z) = z_animals z"
  "enclosures (startDay rng indices z) = enclosures z"
  "totalAnimals (startDay rng indices z) = totalAnimals z"
  by (simp_all add: startDay_def refreshMarket_fields)

section \<open>The invariant holds in every reachable state\<close>

lemma onFirst_static:
  "(\<And>e. enc_static (f e) = enc_static e) \<Longrightarrow> map enc_static (onFirst P f encs) = map enc_static encs"
  by (induction encs) simp_all

lemma static_ids: "map enc_static encs' = map enc_static encs \<Longrightarrow> map e_id encs' = map e_id encs"
proof -
  assume h: "map enc_static encs' = map enc_static encs"
  have "map e_id es = map fst (map enc_static es)" for es
    by (simp add: enc_static_def)
  with h show ?thesis by metis
qed

lemma housed_static:
  assumes "map enc_static encs' = map enc_static encs"
  shows "housed encs' a = housed encs a"
proof -
  have "housed es a \<longleftrightarrow> (\<exists>k \<in> set (map enc_static es). fst k = enclosureId a
           \<and> fst (snd (snd k)) = a_type a \<and> fst (snd (snd (snd k))) = preferredClimate a)" for es
    by (auto simp: housed_def fits_def enc_static_def)
  with assms show ?thesis by metis
qed

lemma onFirst_all:
  "\<forall>e \<in> set encs. Q e \<Longrightarrow> (\<And>e. e \<in> set encs \<Longrightarrow> P e \<Longrightarrow> Q (f e)) \<Longrightarrow>
   \<forall>e \<in> set (onFirst P f encs). Q e"
  by (induction encs) auto

lemma encs_inv_onFirst:
  assumes "encs_inv encs"
    and st: "\<And>e. enc_static (f e) = enc_static e"
    and ok: "\<And>e. e \<in> set encs \<Longrightarrow> P e \<Longrightarrow> enclosure_ok e \<Longrightarrow> capacity e \<le> 100 \<Longrightarrow> enclosure_ok (f e)"
  shows "encs_inv (onFirst P f encs)"
proof -
  have ids: "map e_id (onFirst P f encs) = map e_id encs"
    using st by (intro static_ids onFirst_static)
  have cap: "capacity (f e) = capacity e" for e
    using st [of e] by (simp add: enc_static_def)
  have "\<forall>e \<in> set (onFirst P f encs). enclosure_ok e \<and> capacity e \<le> 100"
    using assms(1) ok cap by (intro onFirst_all) (auto simp: encs_inv_def)
  with assms(1) ids show ?thesis by (simp add: encs_inv_def)
qed

lemma removeAnimal_static: "enc_static (removeAnimal u e) = enc_static e"
  by (simp add: enc_static_def removeAnimal_def)

lemma updateAnimal_static: "enc_static (updateAnimal u e) = enc_static e"
  by (simp add: enc_static_def updateAnimal_def)

lemma addAnimal_static: "enc_static (addAnimal a e) = enc_static e"
  by (simp add: enc_static_def addAnimal_def)

lemma removeAnimal_ok: "enclosure_ok e \<Longrightarrow> enclosure_ok (removeAnimal u e)"
proof -
  assume h: "enclosure_ok e"
  have "int (length (filter (\<lambda>a. uniqueId a \<noteq> u) (e_animals e))) \<le> int (length (e_animals e))"
    by simp
  moreover from h have "int (length (e_animals e)) \<le> capacity e"
    by (simp add: enclosure_ok_def)
  ultimately have "int (length (filter (\<lambda>a. uniqueId a \<noteq> u) (e_animals e))) \<le> capacity e"
    by (rule order_trans)
  with h show ?thesis by (simp add: enclosure_ok_def removeAnimal_def fits_def)
qed

lemma updateFirst_set: "set (updateFirst u as) \<subseteq> insert u (set as)"
  by (induction as) auto

lemma updateFirst_length: "length (updateFirst u as) = length as"
  by (induction as) auto

lemma updateAnimal_ok: "enclosure_ok e \<Longrightarrow> fits u e \<Longrightarrow> enclosure_ok (updateAnimal u e)"
  using updateFirst_set [of u "e_animals e"]
  by (auto simp: enclosure_ok_def updateAnimal_def fits_def updateFirst_length)

lemma addAnimal_ok:
  "enclosure_ok e \<Longrightarrow> capacity e \<le> 100 \<Longrightarrow> canAddAnimal e a' \<Longrightarrow>
   a_type a = a_type a' \<Longrightarrow> preferredClimate a = preferredClimate a' \<Longrightarrow>
   enclosure_ok (addAnimal a e)"
proof -
  assume h: "enclosure_ok e" "capacity e \<le> 100" "canAddAnimal e a'"
    "a_type a = a_type a'" "preferredClimate a = preferredClimate a'"
  then have c0: "0 \<le> capacity e" by (simp add: enclosure_ok_def)
  with h(2) have "capacity e mod 2 ^ 64 = capacity e" by simp
  with h(3) have "length (e_animals e) < nat (capacity e)"
    by (simp add: canAddAnimal_def to_size_t_def)
  with h show ?thesis
    by (auto simp: enclosure_ok_def addAnimal_def fits_def canAddAnimal_def)
qed

lemma id_unique:
  assumes "sorted_wrt (<) (map e_id encs)" "e \<in> set encs" "e' \<in> set encs" "e_id e = e_id e'"
  shows "e = e'"
proof -
  from assms(1) have "distinct (map e_id encs)"
    by (simp add: strict_sorted_iff)
  then have "inj_on e_id (set encs)" by (simp add: distinct_map)
  with assms show ?thesis by (auto dest: inj_onD)
qed

lemma housed_fits:
  "encs_inv encs \<Longrightarrow> housed encs a \<Longrightarrow> e \<in> set encs \<Longrightarrow> e_id e = enclosureId a \<Longrightarrow> fits a e"
  by (metis encs_inv_def housed_def id_unique)

lemma detach_inv: "encs_inv encs \<Longrightarrow> encs_inv (detach a encs)"
  unfolding detach_def
  by (rule encs_inv_onFirst) (simp_all add: removeAnimal_static removeAnimal_ok)

lemma detach_static: "map enc_static (detach a encs) = map enc_static encs"
  unfolding detach_def by (rule onFirst_static) (rule removeAnimal_static)

lemma akin_refl: "akin a a"
  by (simp add: akin_def)

lemma akin_housed: "akin a' a \<Longrightarrow> housed encs a' = housed encs a"
  by (simp add: akin_def housed_def fits_def)

lemma all_akin_refl: "all_akin as as"
  by (meson all_akin_def akin_refl)

lemma all_akin_trans: "all_akin as'' as' \<Longrightarrow> all_akin as' as \<Longrightarrow> all_akin as'' as"
  unfolding all_akin_def akin_def by metis

lemma all_akin_Cons: "akin a' a \<Longrightarrow> all_akin as' as \<Longrightarrow> all_akin (a' # as') (a # as)"
  by (auto simp: all_akin_def)

lemma all_akin_drop: "all_akin as' as \<Longrightarrow> all_akin as' (a # as)"
  by (auto simp: all_akin_def)

lemma akin_grow: "akin (incrementAgeDays (incrementDaysSincePurchase a)) a"
  by (simp add: akin_def incrementAgeDays_def incrementDaysSincePurchase_def)

lemma akin_setSick: "akin (setSick s a) a"
  by (simp add: akin_def setSick_def)

lemma ageLoop_encs:
  "encs_inv (enclosures z) \<Longrightarrow>
   encs_inv (enclosures (snd (ageLoop rng as z)))
   \<and> map enc_static (enclosures (snd (ageLoop rng as z))) = map enc_static (enclosures z)"
  by (induction as arbitrary: z) (simp_all add: Let_def split_beta detach_inv detach_static)

lemma ageLoop_akin: "all_akin (fst (ageLoop rng as z)) as"
  by (induction as arbitrary: z)
     (simp_all add: Let_def split_beta all_akin_refl all_akin_Cons all_akin_drop akin_grow)

lemma starveLoop_encs:
  "encs_inv (enclosures z) \<Longrightarrow>
   encs_inv (enclosures (snd (starveLoop rng as z)))
   \<and> map enc_static (enclosures (snd (starveLoop rng as z))) = map enc_static (enclosures z)"
  by (induction as arbitrary: z) (simp_all add: Let_def split_beta detach_inv detach_static)

lemma starveLoop_akin: "all_akin (fst (starveLoop rng as z)) as"
  by (induction as arbitrary: z)
     (simp_all add: Let_def split_beta all_akin_refl all_akin_Cons all_akin_drop akin_refl)

lemma sickLoop_akin: "all_akin (fst (sickLoop rng pos as)) as"
  by (induction as arbitrary: pos)
     (simp_all add: split_beta all_akin_refl all_akin_Cons akin_refl akin_setSick)

lemma update_inv:
  assumes "encs_inv encs" "housed encs u"
  shows "encs_inv (onFirst (hasId (enclosureId u)) (updateAnimal u) encs)"
proof (rule encs_inv_onFirst [OF assms(1)])
  show "enc_static (updateAnimal u e) = enc_static e" for e
    by (rule updateAnimal_static)
next
  fix e
  assume e: "e \<in> set encs" "hasId (enclosureId u) e" "enclosure_ok e"
  with assms have "fits u e"
    by (intro housed_fits [of encs]) (simp_all add: hasId_def)
  with e(3) show "enclosure_ok (updateAnimal u e)"
    by (rule updateAnimal_ok)
qed

lemma heal_inv:
  assumes "encs_inv encs" "housed encs a"
  shows "encs_inv (onFirst (hasId (enclosureId (setSick False a))) (updateAnimal (setSick False a)) encs)"
  using assms akin_housed [OF akin_setSick, of encs False a] by (intro update_inv) simp_all

lemma heal_static:
  "map enc_static (onFirst P (updateAnimal u) encs) = map enc_static encs"
  by (rule onFirst_static) (rule updateAnimal_static)

lemma treatLoop_inv:
  "encs_inv encs \<Longrightarrow> \<forall>a \<in> set as. housed encs a \<Longrightarrow>
   encs_inv (snd (treatLoop w treated as encs))
   \<and> map enc_static (snd (treatLoop w treated as encs)) = map enc_static encs
   \<and> all_akin (fst (treatLoop w treated as encs)) as"
proof (induction as arbitrary: treated encs)
  case Nil
  then show ?case by (simp add: all_akin_refl)
next
  case (Cons a as)
  let ?encs' = "onFirst (hasId (enclosureId (setSick False a))) (updateAnimal (setSick False a)) encs"
  have i': "encs_inv ?encs'" using Cons.prems by (intro heal_inv) simp_all
  have s': "map enc_static ?encs' = map enc_static encs" by (rule heal_static)
  have h': "\<forall>x \<in> set as. housed ?encs' x"
    using Cons.prems(2) housed_static [OF s'] by simp
  from Cons.IH [OF i' h'] Cons.IH [OF Cons.prems(1)] Cons.prems(2) s'
  show ?case
    by (simp add: Let_def split_beta all_akin_Cons akin_refl akin_setSick)
qed

lemma vetLoop_inv:
  "encs_inv encs \<Longrightarrow> \<forall>a \<in> set as. housed encs a \<Longrightarrow>
   encs_inv (snd (vetLoop ws (as, encs)))
   \<and> map enc_static (snd (vetLoop ws (as, encs))) = map enc_static encs
   \<and> all_akin (fst (vetLoop ws (as, encs))) as"
proof (induction ws arbitrary: as encs)
  case Nil
  then show ?case by (simp add: all_akin_refl)
next
  case (Cons w ws)
  show ?case
  proof (cases "w_type w = VETERINARIAN \<and> daysAssigned w > 0")
    case False
    then have "vetLoop (w # ws) (as, encs) = vetLoop ws (as, encs)" by auto
    with Cons.IH [OF Cons.prems] show ?thesis by simp
  next
    case True
    obtain as' encs' where t: "treatLoop w 0 as encs = (as', encs')" by (cases "treatLoop w 0 as encs")
    from treatLoop_inv [OF Cons.prems, of w 0] t
    have i: "encs_inv encs'" and s: "map enc_static encs' = map enc_static encs"
      and k: "all_akin as' as" by simp_all
    have h: "\<forall>a \<in> set as'. housed encs' a"
      using k Cons.prems(2) housed_static [OF s] akin_housed
      unfolding all_akin_def by metis
    from Cons.IH [OF i h] True t s k show ?thesis
      by (auto intro: all_akin_trans)
  qed
qed

lemma reg_ok_akin:
  assumes "all_akin as' as" "map enc_static encs' = map enc_static encs"
    "\<forall>a \<in> set as. housed encs a \<and> 0 \<le> price a"
  shows "\<forall>a \<in> set as'. housed encs' a \<and> 0 \<le> price a"
proof
  fix a' assume "a' \<in> set as'"
  with assms(1) obtain a where a: "a \<in> set as" "akin a' a" by (auto simp: all_akin_def)
  with assms(3) have "housed encs a" "0 \<le> price a" by simp_all
  with a(2) show "housed encs' a' \<and> 0 \<le> price a'"
    using akin_housed [OF a(2), of encs] housed_static [OF assms(2), of a']
    by (simp add: akin_def)
qed

lemma zoo_inv_split: "zoo_inv z \<longleftrightarrow> core_inv z \<and> market_inv z"
  by (auto simp: zoo_inv_def core_inv_def market_inv_def)

lemma core_inv_cong:
  "enclosures z' = enclosures z \<Longrightarrow> z_animals z' = z_animals z \<Longrightarrow> core_inv z' = core_inv z"
  by (simp add: core_inv_def)

lemma market_inv_cong:
  "marketAnimals z' = marketAnimals z \<Longrightarrow> nextId z' = nextId z \<Longrightarrow> market_inv z' = market_inv z"
  by (simp add: market_inv_def)

lemma core_inv_step:
  assumes "core_inv z" "encs_inv (enclosures z')"
    "map enc_static (enclosures z') = map enc_static (enclosures z)"
    "all_akin (z_animals z') (z_animals z)"
  shows "core_inv z'"
  using reg_ok_akin [OF assms(4) assms(3)] assms(1,2) by (simp add: core_inv_def)

lemma agePhase_parts:
  "enclosures (agePhase rng z) = enclosures (snd (ageLoop rng (z_animals z) z))"
  "z_animals (agePhase rng z) = fst (ageLoop rng (z_animals z) z)"
  by (simp_all add: agePhase_def split_beta)

lemma core_inv_agePhase:
  assumes "core_inv z"
  shows "core_inv (agePhase rng z)"
proof (rule core_inv_step [OF assms])
  from assms have i: "encs_inv (enclosures z)" by (simp add: core_inv_def)
  show "encs_inv (enclosures (agePhase rng z))"
    unfolding agePhase_parts using ageLoop_encs [OF i] by blast
  show "map enc_static (enclosures (agePhase rng z)) = map enc_static (enclosures z)"
    unfolding agePhase_parts using ageLoop_encs [OF i] by blast
  show "all_akin (z_animals (agePhase rng z)) (z_animals z)"
    unfolding agePhase_parts by (rule ageLoop_akin)
qed

lemma feedPhase_parts:
  "enclosures (feedPhase rng z) =
     (if food z \<ge> foodNeeded (z_animals z) then enclosures z
      else enclosures (snd (starveLoop rng (z_animals z) z)))"
  "z_animals (feedPhase rng z) =
     (if food z \<ge> foodNeeded (z_animals z) then z_animals z
      else fst (starveLoop rng (z_animals z) z))"
  by (simp_all add: feedPhase_def split_beta)

lemma core_inv_feedPhase:
  assumes "core_inv z"
  shows "core_inv (feedPhase rng z)"
proof (rule core_inv_step [OF assms])
  from assms have i: "encs_inv (enclosures z)" by (simp add: core_inv_def)
  show "encs_inv (enclosures (feedPhase rng z))"
    unfolding feedPhase_parts using starveLoop_encs [OF i] i by simp
  show "map enc_static (enclosures (feedPhase rng z)) = map enc_static (enclosures z)"
    unfolding feedPhase_parts using starveLoop_encs [OF i] by simp
  show "all_akin (z_animals (feedPhase rng z)) (z_animals z)"
    unfolding feedPhase_parts by (simp add: starveLoop_akin all_akin_refl)
qed

lemma sickPhase_animals:
  "z_animals (sickPhase rng z) = fst (sickLoop rng (randCalls z) (z_animals z))"
  by (simp add: sickPhase_def split_beta)

lemma core_inv_sickPhase:
  assumes "core_inv z"
  shows "core_inv (sickPhase rng z)"
proof (rule core_inv_step [OF assms])
  from assms show "encs_inv (enclosures (sickPhase rng z))"
    by (simp add: core_inv_def sickPhase_fields)
  show "map enc_static (enclosures (sickPhase rng z)) = map enc_static (enclosures z)"
    by (simp add: sickPhase_fields)
  show "all_akin (z_animals (sickPhase rng z)) (z_animals z)"
    unfolding sickPhase_animals by (rule sickLoop_akin)
qed

lemma vetPhase_parts:
  "enclosures (vetPhase z) = snd (vetLoop (workers z) (z_animals z, enclosures z))"
  "z_animals (vetPhase z) = fst (vetLoop (workers z) (z_animals z, enclosures z))"
  by (simp_all add: vetPhase_def split_beta)

lemma core_inv_vetPhase:
  assumes "core_inv z"
  shows "core_inv (vetPhase z)"
proof (rule core_inv_step [OF assms])
  from assms have i: "encs_inv (enclosures z)" and h: "\<forall>a \<in> set (z_animals z). housed (enclosures z) a"
    by (simp_all add: core_inv_def)
  note v = vetLoop_inv [OF i h, of "workers z"]
  show "encs_inv (enclosures (vetPhase z))" unfolding vetPhase_parts using v by blast
  show "map enc_static (enclosures (vetPhase z)) = map enc_static (enclosures z)"
    unfolding vetPhase_parts using v by blast
  show "all_akin (z_animals (vetPhase z)) (z_animals z)"
    unfolding vetPhase_parts using v by blast
qed

lemma core_inv_nextDay:
  assumes "core_inv z"
  shows "core_inv (nextDay rng indices z)"
proof -
  have "core_inv (startDay rng indices z) = core_inv z"
    by (rule core_inv_cong) (simp_all add: startDay_fields)
  with assms have 1: "core_inv (agePhase rng (startDay rng indices z))"
    by (simp add: core_inv_agePhase)
  have "core_inv (workerPhase (agePhase rng (startDay rng indices z)))
          = core_inv (agePhase rng (startDay rng indices z))"
    by (rule core_inv_cong) (simp_all add: workerPhase_fields)
  with 1 have 2: "core_inv (feedPhase rng (vetPhase (sickPhase rng (workerPhase (agePhase rng
               (startDay rng indices z))))))"
    by (simp add: core_inv_sickPhase core_inv_vetPhase core_inv_feedPhase)
  have "core_inv (nextDay rng indices z) = core_inv (feedPhase rng (vetPhase (sickPhase rng
          (workerPhase (agePhase rng (startDay rng indices z))))))"
    unfolding nextDay_def
    by (rule core_inv_cong)
       (simp_all add: loanPhase_fields moneyPhase_fields visitorsPhase_fields driftPhase_fields)
  with 2 show ?thesis by simp
qed

lemma length_catalog: "length catalog = 10"
  by (simp add: catalog_def)

lemma length_available: "length (getAvailableAnimals rng pos nid) = 10"
  by (simp add: getAvailableAnimals_def length_catalog)

lemma shuffled_facts:
  assumes "shuffled indices n"
  shows "length indices = n" "set indices = {0..<n}" "distinct indices"
proof -
  from assms have m: "mset indices = mset [0..<n]" by (simp add: shuffled_def)
  from m have "size (mset indices) = size (mset [0..<n])" by simp
  then show "length indices = n" by simp
  from m have "set_mset (mset indices) = set_mset (mset [0..<n])" by simp
  then show "set indices = {0..<n}" by simp
  from m show "distinct indices" by (metis distinct_upt mset_eq_imp_distinct_iff)
qed

lemma marketAnimals_refresh:
  assumes "shuffled indices (length catalog)"
  shows "marketAnimals (refreshMarket rng indices z) =
           map (\<lambda>k. catalogAnimal rng (randCalls z) (nextId z) k (catalog ! k)) indices"
proof -
  note f = shuffled_facts [OF assms]
  have l: "length indices = 10" using f(1) by (simp add: length_catalog)
  have in_range: "indices ! i < 10" if "i < 10" for i
    using f(2) l that by (metis atLeastLessThan_iff length_catalog nth_mem)
  have "marketAnimals (refreshMarket rng indices z) =
          map (\<lambda>i. getAvailableAnimals rng (randCalls z) (nextId z) ! (indices ! i)) [0..<10]"
    by (simp add: refreshMarket_def Let_def length_available)
  also have "\<dots> = map (\<lambda>i. catalogAnimal rng (randCalls z) (nextId z) (indices ! i)
                                (catalog ! (indices ! i))) [0..<10]"
    using in_range by (simp add: getAvailableAnimals_def length_catalog)
  also have "\<dots> = map (\<lambda>k. catalogAnimal rng (randCalls z) (nextId z) k (catalog ! k))
                      (map (\<lambda>i. indices ! i) [0..<length indices])"
    by (simp add: l)
  also have "map (\<lambda>i. indices ! i) [0..<length indices] = indices"
    by (rule map_nth)
  finally show ?thesis .
qed

lemma nextId_refresh: "nextId (refreshMarket rng indices z) = nextId z + 10"
  by (simp add: refreshMarket_def Let_def length_available)

lemma catalog_prices: "\<forall>entry \<in> set catalog. 0 \<le> fst (snd (snd (snd (snd entry))))"
  by (simp add: catalog_def)

lemma catalogAnimal_fields:
  "uniqueId (catalogAnimal rng pos nid k entry) = nid + int k"
  "price (catalogAnimal rng pos nid k entry) = fst (snd (snd (snd (snd entry))))"
  "species (catalogAnimal rng pos nid k entry) = fst entry"
  by (simp_all add: catalogAnimal_def Animal_ctor_def split_beta)

lemma market_inv_refresh:
  assumes "shuffled indices (length catalog)"
  shows "market_inv (refreshMarket rng indices z)"
proof -
  note f = shuffled_facts [OF assms]
  have "0 \<le> price (catalogAnimal rng pos nid k (catalog ! k)) \<and>
        uniqueId (catalogAnimal rng pos nid k (catalog ! k)) < nid + 10"
    if "k \<in> set indices" for k pos nid
  proof -
    from that f(2) have k: "k < 10" by (simp add: length_catalog)
    then have "catalog ! k \<in> set catalog" by (simp add: length_catalog)
    with catalog_prices k show ?thesis by (simp add: catalogAnimal_fields)
  qed
  then show ?thesis
    by (auto simp: market_inv_def marketAnimals_refresh [OF assms] nextId_refresh)
qed

lemma market_nextDay:
  "marketAnimals (nextDay rng indices z) = marketAnimals (refreshMarket rng indices z)"
  "nextId (nextDay rng indices z) = nextId (refreshMarket rng indices z)"
  by (simp_all add: nextDay_def loanPhase_fields moneyPhase_fields visitorsPhase_fields
      driftPhase_fields feedPhase_fields vetPhase_fields sickPhase_fields workerPhase_fields
      agePhase_fields startDay_def refreshMarket_def Let_def)

lemma market_inv_nextDay:
  "shuffled indices (length catalog) \<Longrightarrow> market_inv (nextDay rng indices z)"
  using market_inv_refresh [of indices rng z]
  by (simp add: market_inv_def market_nextDay)

lemma zoo_inv_cong:
  "enclosures z' = enclosures z \<Longrightarrow> z_animals z' = z_animals z \<Longrightarrow>
   marketAnimals z' = marketAnimals z \<Longrightarrow> nextId z' = nextId z \<Longrightarrow> zoo_inv z' = zoo_inv z"
  by (simp add: zoo_inv_def)

lemma core_inv_refreshMarket: "core_inv (refreshMarket rng indices z) = core_inv z"
  by (rule core_inv_cong) (simp_all add: refreshMarket_fields)

lemma zoo_inv_nextDay:
  "zoo_inv z \<Longrightarrow> shuffled indices (length catalog) \<Longrightarrow> zoo_inv (nextDay rng indices z)"
  by (simp add: zoo_inv_split core_inv_nextDay market_inv_nextDay)

lemma zoo_inv_refresh:
  "zoo_inv z \<Longrightarrow> shuffled indices (length catalog) \<Longrightarrow> zoo_inv (refreshMarket rng indices z)"
  by (simp add: zoo_inv_split core_inv_refreshMarket market_inv_refresh)

lemma zoo_inv_money: "zoo_inv (z\<lparr>money := m\<rparr>) = zoo_inv z"
  by (rule zoo_inv_cong) simp_all

lemma zoo_inv_paidRefresh:
  "zoo_inv z \<Longrightarrow> shuffled indices (length catalog) \<Longrightarrow> zoo_inv (snd (paidRefresh rng indices z))"
  by (simp add: paidRefresh_def zoo_inv_refresh zoo_inv_money)

lemma zoo_inv_ctor: "shuffled indices (length catalog) \<Longrightarrow> zoo_inv (Zoo_ctor rng indices n)"
  unfolding Zoo_ctor_def
  by (rule zoo_inv_refresh)
     (simp_all add: zoo_inv_def encs_inv_def enclosure_ok_def Enclosure_ctor_def)

lemma zoo_inv_hire: "zoo_inv (snd (hireWorker z nm posChoice inputs)) = zoo_inv z"
  by (rule zoo_inv_cong) (simp_all add: hireWorker_def Let_def split: list.splits)

lemma zoo_inv_fire: "zoo_inv (snd (fireWorker z fireChoice)) = zoo_inv z"
  by (rule zoo_inv_cong) (simp_all add: fireWorker_def)

lemma zoo_inv_assign: "zoo_inv (snd (assignWorker z workerChoice encId daysAss)) = zoo_inv z"
  by (rule zoo_inv_cong) (simp_all add: assignWorker_def Let_def)

lemma zoo_inv_food: "zoo_inv (snd (buyFood z foodAmount)) = zoo_inv z"
  by (rule zoo_inv_cong) (simp_all add: buyFood_def)

lemma zoo_inv_advertise: "zoo_inv (snd (advertise z adSpend)) = zoo_inv z"
  by (rule zoo_inv_cong) (simp_all add: advertise_def)

lemma zoo_inv_loan: "zoo_inv (snd (takeLoan z amount d)) = zoo_inv z"
  by (rule zoo_inv_cong) (simp_all add: takeLoan_def split: sum.splits)

lemma set_erase_at: "set (erase_at k xs) \<subseteq> set xs"
  unfolding erase_at_def using set_take_subset [of k xs] set_drop_subset [of "Suc k" xs] by auto

lemma housed_onFirst:
  "(\<And>e. enc_static (f e) = enc_static e) \<Longrightarrow> housed (onFirst P f encs) a = housed encs a"
  by (rule housed_static) (rule onFirst_static)

lemma list_ex_unique:
  assumes "sorted_wrt (<) (map e_id encs)" "list_ex (\<lambda>e. e_id e = i \<and> Q e) encs"
    "e \<in> set encs" "e_id e = i"
  shows "Q e"
proof -
  from assms(2) obtain e' where "e' \<in> set encs" "e_id e' = i" "Q e'"
    by (auto simp: list_ex_iff)
  with assms(1,3,4) id_unique [of encs e e'] show ?thesis by simp
qed

lemma buyAnimal_Done:
  "fst (buyAnimal z animalChoice encId) = Done \<longrightarrow>
     nat (animalChoice - 1) < length (marketAnimals z)
     \<and> list_ex (\<lambda>e. e_id e = encId \<and> canAddAnimal e (marketAnimals z ! nat (animalChoice - 1)))
          (enclosures z)
     \<and> real_of_int (price (marketAnimals z ! nat (animalChoice - 1))) \<le> money z"
  by (simp add: buyAnimal_def Let_def) linarith

lemma buyAnimal_snd:
  "snd (buyAnimal z animalChoice encId) =
     (if fst (buyAnimal z animalChoice encId) = Done then
        z\<lparr>enclosures :=
            onFirst (\<lambda>e. e_id e = encId \<and> canAddAnimal e (marketAnimals z ! nat (animalChoice - 1)))
              (addAnimal (setEnclosureId encId (marketAnimals z ! nat (animalChoice - 1))))
              (enclosures z),
          z_animals := z_animals z @ [setEnclosureId encId (marketAnimals z ! nat (animalChoice - 1))],
          money := money z - real_of_int (price (setEnclosureId encId
                     (marketAnimals z ! nat (animalChoice - 1)))),
          totalAnimals := totalAnimals z + 1,
          animalsBoughtToday := animalsBoughtToday z + 1,
          marketAnimals := erase_at (nat (animalChoice - 1)) (marketAnimals z)\<rparr>
      else z)"
  by (simp add: buyAnimal_def Let_def)

lemma sellAnimal_Done:
  "fst (sellAnimal z sellChoice) = Done \<longrightarrow> nat (sellChoice - 1) < length (z_animals z)"
  by (simp add: sellAnimal_def Let_def) linarith

lemma sellAnimal_snd:
  "snd (sellAnimal z sellChoice) =
     (if fst (sellAnimal z sellChoice) = Done then
        z\<lparr>money := money z + real_of_int (price (z_animals z ! nat (sellChoice - 1)) sdiv 2),
          enclosures := detach (z_animals z ! nat (sellChoice - 1)) (enclosures z),
          z_animals := erase_at (nat (sellChoice - 1)) (z_animals z),
          totalAnimals := totalAnimals z - 1\<rparr>
      else z)"
  by (simp add: sellAnimal_def Let_def detach_def)

lemma renameAnimal_Done:
  "fst (renameAnimal z renameChoice newName) = Done \<longrightarrow>
     nat (renameChoice - 1) < length (z_animals z) \<and> newName \<noteq> []"
  by (simp add: renameAnimal_def Let_def) linarith

lemma renameAnimal_snd:
  "snd (renameAnimal z renameChoice newName) =
     (if fst (renameAnimal z renameChoice newName) = Done then
        z\<lparr>z_animals := (z_animals z)[nat (renameChoice - 1) :=
             setDisplayName newName (z_animals z ! nat (renameChoice - 1))],
          enclosures :=
            onFirst (hasId (enclosureId (setDisplayName newName (z_animals z ! nat (renameChoice - 1)))))
              (updateAnimal (setDisplayName newName (z_animals z ! nat (renameChoice - 1))))
              (enclosures z)\<rparr>
      else z)"
  by (simp add: renameAnimal_def Let_def)

lemma zoo_inv_buy:
  assumes "zoo_inv z"
  shows "zoo_inv (snd (buyAnimal z animalChoice encId))"
proof (cases "fst (buyAnimal z animalChoice encId) = Done")
  case False
  then have "snd (buyAnimal z animalChoice encId) = z"
    by (simp add: buyAnimal_snd)
  with assms show ?thesis by simp
next
  case True
  define selected where "selected = marketAnimals z ! nat (animalChoice - 1)"
  define placed where "placed = setEnclosureId encId selected"
  define P where "P = (\<lambda>e. e_id e = encId \<and> canAddAnimal e selected)"
  from True have k: "nat (animalChoice - 1) < length (marketAnimals z)"
    and ex: "list_ex P (enclosures z)"
    and res: "snd (buyAnimal z animalChoice encId) =
       z\<lparr>enclosures := onFirst P (addAnimal placed) (enclosures z),
         z_animals := z_animals z @ [placed],
         money := money z - real_of_int (price placed),
         totalAnimals := totalAnimals z + 1,
         animalsBoughtToday := animalsBoughtToday z + 1,
         marketAnimals := erase_at (nat (animalChoice - 1)) (marketAnimals z)\<rparr>"
    using buyAnimal_Done [of z animalChoice encId]
    by (simp_all add: buyAnimal_snd selected_def placed_def P_def)
  from assms have i: "encs_inv (enclosures z)"
    and reg: "\<forall>a \<in> set (z_animals z). housed (enclosures z) a \<and> 0 \<le> price a"
    and mk: "\<forall>a \<in> set (marketAnimals z). 0 \<le> price a \<and> uniqueId a < nextId z"
    by (simp_all add: zoo_inv_def)
  from k have "selected \<in> set (marketAnimals z)" by (simp add: selected_def)
  with mk have sp: "0 \<le> price selected" by simp
  have st: "enc_static (addAnimal placed e) = enc_static e" for e by (rule addAnimal_static)
  have i': "encs_inv (onFirst P (addAnimal placed) (enclosures z))"
  proof (rule encs_inv_onFirst [OF i st])
    fix e assume "P e" "enclosure_ok e" "capacity e \<le> 100"
    then show "enclosure_ok (addAnimal placed e)"
      by (intro addAnimal_ok [of e selected]) (simp_all add: P_def placed_def setEnclosureId_def)
  qed
  from ex obtain e where e: "e \<in> set (enclosures z)" "e_id e = encId" "canAddAnimal e selected"
    by (auto simp: list_ex_iff P_def)
  then have "housed (enclosures z) placed"
    by (auto simp: housed_def fits_def placed_def setEnclosureId_def canAddAnimal_def)
  moreover have "price placed = price selected" by (simp add: placed_def setEnclosureId_def)
  ultimately have reg': "\<forall>a \<in> set (z_animals z @ [placed]).
      housed (onFirst P (addAnimal placed) (enclosures z)) a \<and> 0 \<le> price a"
    using reg sp by (simp add: housed_onFirst [OF st])
  from mk set_erase_at [of "nat (animalChoice - 1)" "marketAnimals z"]
  have mk': "\<forall>a \<in> set (erase_at (nat (animalChoice - 1)) (marketAnimals z)).
      0 \<le> price a \<and> uniqueId a < nextId z" by blast
  from i' reg' mk' show ?thesis by (simp add: res zoo_inv_def)
qed

lemma zoo_inv_sell:
  assumes "zoo_inv z"
  shows "zoo_inv (snd (sellAnimal z sellChoice))"
proof (cases "fst (sellAnimal z sellChoice) = Done")
  case False
  then have "snd (sellAnimal z sellChoice) = z"
    by (simp add: sellAnimal_snd)
  with assms show ?thesis by simp
next
  case True
  define sold where "sold = z_animals z ! nat (sellChoice - 1)"
  from True have res: "snd (sellAnimal z sellChoice) =
       z\<lparr>money := money z + real_of_int (price sold sdiv 2),
         enclosures := detach sold (enclosures z),
         z_animals := erase_at (nat (sellChoice - 1)) (z_animals z),
         totalAnimals := totalAnimals z - 1\<rparr>"
    by (simp add: sellAnimal_snd sold_def)
  from assms have i: "encs_inv (enclosures z)"
    and reg: "\<forall>a \<in> set (z_animals z). housed (enclosures z) a \<and> 0 \<le> price a"
    and mk: "\<forall>a \<in> set (marketAnimals z). 0 \<le> price a \<and> uniqueId a < nextId z"
    by (simp_all add: zoo_inv_def)
  from reg set_erase_at [of "nat (sellChoice - 1)" "z_animals z"]
  have "\<forall>a \<in> set (erase_at (nat (sellChoice - 1)) (z_animals z)).
      housed (enclosures z) a \<and> 0 \<le> price a" by blast
  then have reg': "\<forall>a \<in> set (erase_at (nat (sellChoice - 1)) (z_animals z)).
      housed (detach sold (enclosures z)) a \<and> 0 \<le> price a"
    by (simp add: housed_static [OF detach_static])
  from detach_inv [OF i] reg' mk show ?thesis by (simp add: res zoo_inv_def)
qed

lemma zoo_inv_rename:
  assumes "zoo_inv z"
  shows "zoo_inv (snd (renameAnimal z renameChoice newName))"
proof (cases "fst (renameAnimal z renameChoice newName) = Done")
  case False
  then have "snd (renameAnimal z renameChoice newName) = z"
    by (simp add: renameAnimal_snd)
  with assms show ?thesis by simp
next
  case True
  define k where "k = nat (renameChoice - 1)"
  define renamed where "renamed = setDisplayName newName (z_animals z ! k)"
  from True have kl: "k < length (z_animals z)"
    and res: "snd (renameAnimal z renameChoice newName) =
       z\<lparr>z_animals := (z_animals z)[k := renamed],
         enclosures := onFirst (hasId (enclosureId renamed)) (updateAnimal renamed) (enclosures z)\<rparr>"
    using renameAnimal_Done [of z renameChoice newName]
    by (simp_all add: renameAnimal_snd k_def renamed_def)
  from assms have i: "encs_inv (enclosures z)"
    and reg: "\<forall>a \<in> set (z_animals z). housed (enclosures z) a \<and> 0 \<le> price a"
    and mk: "\<forall>a \<in> set (marketAnimals z). 0 \<le> price a \<and> uniqueId a < nextId z"
    by (simp_all add: zoo_inv_def)
  from kl reg have old: "housed (enclosures z) (z_animals z ! k) \<and> 0 \<le> price (z_animals z ! k)"
    by simp
  then have new: "housed (enclosures z) renamed \<and> 0 \<le> price renamed"
    by (simp add: renamed_def setDisplayName_def housed_def fits_def)
  have "set ((z_animals z)[k := renamed]) \<subseteq> insert renamed (set (z_animals z))"
    by (rule set_update_subset_insert)
  with reg new have "\<forall>a \<in> set ((z_animals z)[k := renamed]). housed (enclosures z) a \<and> 0 \<le> price a"
    by blast
  then have reg': "\<forall>a \<in> set ((z_animals z)[k := renamed]).
      housed (onFirst (hasId (enclosureId renamed)) (updateAnimal renamed) (enclosures z)) a
      \<and> 0 \<le> price a"
    by (simp add: housed_static [OF heal_static])
  from update_inv [OF i] new reg' mk show ?thesis by (simp add: res zoo_inv_def)
qed

lemma sdiv_nonneg: "0 \<le> (x::int) \<Longrightarrow> x sdiv 2 = x div 2"
  by (simp add: signed_divide_int_def sgn_if)

lemma ids_le_last: "sorted_wrt (<) (xs::int list) \<Longrightarrow> x \<in> set xs \<Longrightarrow> x \<le> last xs"
  by (induction xs) (auto simp: less_imp_le)

lemma Max_ids: "sorted_wrt (<) (xs::int list) \<Longrightarrow> xs \<noteq> [] \<Longrightarrow> Max (set xs) = last xs"
  by (intro Max_eqI) (simp_all add: ids_le_last)

lemma buildEnclosure_fst:
  "1 \<le> cap \<Longrightarrow> cap \<le> 100 \<Longrightarrow> 1 \<le> typeChoice \<Longrightarrow> typeChoice \<le> 2 \<Longrightarrow>
   1 \<le> climateChoice \<Longrightarrow> climateChoice \<le> 3 \<Longrightarrow>
   fst (buildEnclosure z cap typeChoice climateChoice) =
     (if money z \<ge> real_of_int (50 * cap) then Done else InsufficientFunds)"
  by (simp add: buildEnclosure_def Let_def mult.commute)

lemma buildEnclosure_Done:
  "fst (buildEnclosure z cap typeChoice climateChoice) = Done \<longrightarrow> 1 \<le> cap \<and> cap \<le> 100"
  by (simp add: buildEnclosure_def Let_def)

lemma buildEnclosure_snd:
  "snd (buildEnclosure z cap typeChoice climateChoice) =
     (if fst (buildEnclosure z cap typeChoice climateChoice) = Done then
        z\<lparr>enclosures := enclosures z @
             [Enclosure_ctor (if enclosures z = [] then 1 else lastId z + 1) cap
                (if typeChoice = 1 then HERBIVORE else CARNIVORE)
                (if climateChoice = 1 then TROPICAL else if climateChoice = 2 then TEMPERATE
                 else if climateChoice = 3 then ARCTIC else TEMPERATE)
                (cap * 2)],
          money := money z - real_of_int (cap * 50)\<rparr>
      else z)"
  by (simp add: buildEnclosure_def Let_def)

lemma housed_mono: "housed encs a \<Longrightarrow> housed (encs @ es) a"
  by (auto simp: housed_def)

lemma zoo_inv_build:
  assumes "zoo_inv z"
  shows "zoo_inv (snd (buildEnclosure z cap typeChoice climateChoice))"
proof (cases "fst (buildEnclosure z cap typeChoice climateChoice) = Done")
  case False
  with assms show ?thesis by (simp add: buildEnclosure_snd)
next
  case True
  define new where "new = Enclosure_ctor (if enclosures z = [] then 1 else lastId z + 1) cap
                (if typeChoice = 1 then HERBIVORE else CARNIVORE)
                (if climateChoice = 1 then TROPICAL else if climateChoice = 2 then TEMPERATE
                 else if climateChoice = 3 then ARCTIC else TEMPERATE)
                (cap * 2)"
  from True have res: "snd (buildEnclosure z cap typeChoice climateChoice) =
      z\<lparr>enclosures := enclosures z @ [new], money := money z - real_of_int (cap * 50)\<rparr>"
    and cap: "1 \<le> cap" "cap \<le> 100"
    using buildEnclosure_Done [of z cap typeChoice climateChoice]
    by (simp_all add: buildEnclosure_snd new_def)
  from assms have i: "encs_inv (enclosures z)"
    and reg: "\<forall>a \<in> set (z_animals z). housed (enclosures z) a \<and> 0 \<le> price a"
    and mk: "\<forall>a \<in> set (marketAnimals z). 0 \<le> price a \<and> uniqueId a < nextId z"
    by (simp_all add: zoo_inv_def)
  from i have srt: "sorted_wrt (<) (map e_id (enclosures z))" by (simp add: encs_inv_def)
  have below: "e_id e < e_id new" if "e \<in> set (enclosures z)" for e
  proof -
    from that have ne: "enclosures z \<noteq> []" by auto
    from that have "e_id e \<in> set (map e_id (enclosures z))" by simp
    with srt have "e_id e \<le> last (map e_id (enclosures z))" by (rule ids_le_last)
    with ne show ?thesis by (simp add: new_def Enclosure_ctor_def lastId_def last_map)
  qed
  have ok: "enclosure_ok new \<and> capacity new \<le> 100"
    using cap by (simp add: new_def Enclosure_ctor_def enclosure_ok_def)
  from srt below have "sorted_wrt (<) (map e_id (enclosures z @ [new]))"
    by (simp add: sorted_wrt_append)
  with i ok have i': "encs_inv (enclosures z @ [new])" by (simp add: encs_inv_def)
  from reg have reg': "\<forall>a \<in> set (z_animals z). housed (enclosures z @ [new]) a \<and> 0 \<le> price a"
    by (simp add: housed_mono)
  from i' reg' mk show ?thesis by (simp add: res zoo_inv_def)
qed

lemma operator_plus_Inr:
  assumes "operator_plus a b r uid = Inr n"
  shows "species n = take (length (species a) div 2) (species a)
                       @ drop (length (species b) div 2) (species b)"
    "displayName n = species n @ newborn_suffix"
    "gender n = (if r mod 2 = 0 then MALE else FEMALE)"
    "weight n = (weight a + weight b) / 4"
    "price n = (price a + price b) sdiv 2"
    "a_type n = a_type a" "preferredClimate n = preferredClimate a"
    "enclosureId n = enclosureId a" "ageDays n = 0" "daysSincePurchase n = 0"
    "parents n = (displayName a, displayName b)" "isBornInZoo n" "\<not> isSick n" "uniqueId n = uid"
    "enclosureId a = enclosureId b" "gender a \<noteq> gender b" "5 < ageDays a" "5 < ageDays b"
  using assms by (auto simp: operator_plus_def Let_def Animal_ctor_def split: if_splits)

lemma manageBreeding_Done:
  "fst (manageBreeding rng z first second) = Done \<longrightarrow>
     nat (first - 1) < length (z_animals z) \<and> nat (second - 1) < length (z_animals z)
     \<and> list_ex (\<lambda>e. e_id e = enclosureId (z_animals z ! nat (first - 1))
                     \<and> canAddAnimal e (z_animals z ! nat (first - 1))) (enclosures z)
     \<and> (\<exists>n. operator_plus (z_animals z ! nat (first - 1)) (z_animals z ! nat (second - 1))
                (rng (randCalls z)) (nextId z) = Inr n)"
  by (simp add: manageBreeding_def Let_def split: sum.splits) linarith

lemma manageBreeding_snd:
  "snd (manageBreeding rng z first second) =
     (if fst (manageBreeding rng z first second) = Done then
        z\<lparr>enclosures :=
            onFirst (hasId (enclosureId (projr (operator_plus (z_animals z ! nat (first - 1))
                      (z_animals z ! nat (second - 1)) (rng (randCalls z)) (nextId z)))))
              (addAnimal (projr (operator_plus (z_animals z ! nat (first - 1))
                      (z_animals z ! nat (second - 1)) (rng (randCalls z)) (nextId z))))
              (enclosures z),
          z_animals := z_animals z @ [projr (operator_plus (z_animals z ! nat (first - 1))
                      (z_animals z ! nat (second - 1)) (rng (randCalls z)) (nextId z))],
          totalAnimals := totalAnimals z + 1,
          nextId := nextId z + 1,
          randCalls := randCalls z + 1\<rparr>
      else z)"
  by (simp add: manageBreeding_def Let_def split: sum.splits)

lemma zoo_inv_breed:
  assumes "zoo_inv z"
  shows "zoo_inv (snd (manageBreeding rng z first second))"
proof (cases "fst (manageBreeding rng z first second) = Done")
  case False
  with assms show ?thesis by (simp add: manageBreeding_snd)
next
  case True
  define a where "a = z_animals z ! nat (first - 1)"
  define b where "b = z_animals z ! nat (second - 1)"
  from True manageBreeding_Done [of rng z first second]
  obtain n where ka: "nat (first - 1) < length (z_animals z)"
    and kb: "nat (second - 1) < length (z_animals z)"
    and ex: "list_ex (\<lambda>e. e_id e = enclosureId a \<and> canAddAnimal e a) (enclosures z)"
    and n: "operator_plus a b (rng (randCalls z)) (nextId z) = Inr n"
    by (auto simp: a_def b_def)
  from True n have res: "snd (manageBreeding rng z first second) =
      z\<lparr>enclosures := onFirst (hasId (enclosureId n)) (addAnimal n) (enclosures z),
        z_animals := z_animals z @ [n], totalAnimals := totalAnimals z + 1,
        nextId := nextId z + 1, randCalls := randCalls z + 1\<rparr>"
    by (simp add: manageBreeding_snd a_def b_def)
  note nf = operator_plus_Inr [OF n]
  from assms have i: "encs_inv (enclosures z)"
    and reg: "\<forall>a \<in> set (z_animals z). housed (enclosures z) a \<and> 0 \<le> price a"
    and mk: "\<forall>a \<in> set (marketAnimals z). 0 \<le> price a \<and> uniqueId a < nextId z"
    by (simp_all add: zoo_inv_def)
  from i have srt: "sorted_wrt (<) (map e_id (enclosures z))" by (simp add: encs_inv_def)
  from ka kb reg have pa: "housed (enclosures z) a" "0 \<le> price a" "0 \<le> price b"
    by (simp_all add: a_def b_def)
  have st: "enc_static (addAnimal n e) = enc_static e" for e by (rule addAnimal_static)
  have i': "encs_inv (onFirst (hasId (enclosureId n)) (addAnimal n) (enclosures z))"
  proof (rule encs_inv_onFirst [OF i st])
    fix e assume e: "e \<in> set (enclosures z)" "hasId (enclosureId n) e"
      "enclosure_ok e" "capacity e \<le> 100"
    from e(2) nf(8) have "e_id e = enclosureId a" by (simp add: hasId_def)
    with srt ex e(1) have "canAddAnimal e a" by (rule list_ex_unique)
    with e(3,4) nf(6,7) show "enclosure_ok (addAnimal n e)"
      by (intro addAnimal_ok [of e a])
  qed
  from pa(1) nf(6,7,8) have "housed (enclosures z) n" by (simp add: housed_def fits_def)
  moreover from pa(2,3) nf(5) have "0 \<le> price n" by (simp add: sdiv_nonneg)
  ultimately have reg': "\<forall>x \<in> set (z_animals z @ [n]).
      housed (onFirst (hasId (enclosureId n)) (addAnimal n) (enclosures z)) x \<and> 0 \<le> price x"
    using reg by (simp add: housed_onFirst [OF st])
  from mk have mk': "\<forall>a \<in> set (marketAnimals z). 0 \<le> price a \<and> uniqueId a < nextId z + 1"
    by auto
  from i' reg' mk' show ?thesis by (simp add: res zoo_inv_def)
qed

lemma reachable_inv: "reachable rng z \<Longrightarrow> zoo_inv z"
proof (induction rule: reachable.induct)
  case (r_init indices n)
  then show ?case by (rule zoo_inv_ctor)
next
  case (r_day z indices)
  then show ?case by (simp add: zoo_inv_nextDay)
qed (simp_all add: zoo_inv_buy zoo_inv_sell zoo_inv_rename zoo_inv_paidRefresh zoo_inv_hire
      zoo_inv_fire zoo_inv_assign zoo_inv_food zoo_inv_advertise zoo_inv_loan zoo_inv_build
      zoo_inv_breed)

section \<open>Facts about the example states\<close>

lemma shuffled_upt: "shuffled [0..<10] (length catalog)"
  by (simp add: shuffled_def length_catalog)

lemma buy_first:
  assumes "day z \<le> 10" "marketAnimals z = m # ms" "real_of_int (price m) \<le> money z"
    "enclosures z = [e]" "e_id e = 1" "canAddAnimal e m"
  shows "z_animals (snd (buyAnimal z 1 1)) = z_animals z @ [setEnclosureId 1 m]"
    "enclosures (snd (buyAnimal z 1 1)) = [addAnimal (setEnclosureId 1 m) e]"
    "money (snd (buyAnimal z 1 1)) = money z - real_of_int (price m)"
    "day (snd (buyAnimal z 1 1)) = day z"
    "nextId (snd (buyAnimal z 1 1)) = nextId z"
    "randCalls (snd (buyAnimal z 1 1)) = randCalls z"
proof -
  from assms have d: "fst (buyAnimal z 1 1) = Done"
    by (simp add: buyAnimal_def Let_def lastId_def)
  from assms show "z_animals (snd (buyAnimal z 1 1)) = z_animals z @ [setEnclosureId 1 m]"
    "enclosures (snd (buyAnimal z 1 1)) = [addAnimal (setEnclosureId 1 m) e]"
    "money (snd (buyAnimal z 1 1)) = money z - real_of_int (price m)"
    "day (snd (buyAnimal z 1 1)) = day z"
    "nextId (snd (buyAnimal z 1 1)) = nextId z"
    "randCalls (snd (buyAnimal z 1 1)) = randCalls z"
    by (simp_all add: buyAnimal_snd d setEnclosureId_def)
qed

lemma market_head:
  "marketAnimals (refreshMarket rng [0..<10] z) =
     catalogAnimal rng (randCalls z) (nextId z) 0 (catalog ! 0)
       # map (\<lambda>k. catalogAnimal rng (randCalls z) (nextId z) k (catalog ! k)) [1..<10]"
proof -
  have "[0..<10] = 0 # [1..<10]" by (simp add: upt_conv_Cons)
  then have "map f [0..<10] = f 0 # map f [1..<10]" for f :: "nat \<Rightarrow> Animal" by simp
  with marketAnimals_refresh [OF shuffled_upt, of rng z] show ?thesis by simp
qed

lemma deer_fields:
  "price (catalogAnimal rng pos nid 0 (catalog ! 0)) = 150"
  "a_type (catalogAnimal rng pos nid 0 (catalog ! 0)) = HERBIVORE"
  "preferredClimate (catalogAnimal rng pos nid 0 (catalog ! 0)) = TEMPERATE"
  "ageDays (catalogAnimal rng pos nid 0 (catalog ! 0)) = 10"
  "gender (catalogAnimal rng pos nid 0 (catalog ! 0)) = (if rng pos mod 2 \<noteq> 0 then MALE else FEMALE)"
  by (simp_all add: catalogAnimal_def catalog_def Animal_ctor_def)

lemma ctor_fields:
  "day (Zoo_ctor rng indices n) = 1"
  "money (Zoo_ctor rng indices n) = 1488"
  "enclosures (Zoo_ctor rng indices n) = [Enclosure_ctor 1 5 HERBIVORE TEMPERATE 10]"
  "z_animals (Zoo_ctor rng indices n) = []"
  "randCalls (Zoo_ctor rng indices n) = 10"
  "nextId (Zoo_ctor rng indices n) = 11"
  "marketAnimals (Zoo_ctor rng [0..<10] n) =
     catalogAnimal rng 0 1 0 (catalog ! 0)
       # map (\<lambda>k. catalogAnimal rng 0 1 k (catalog ! k)) [1..<10]"
  by (simp_all add: Zoo_ctor_def refreshMarket_fields market_head)
     (simp_all add: refreshMarket_def Let_def length_available)

lemma ex_pair_animals:
  "z_animals ex_pair_zoo = [ex_deer_f, ex_deer_m]"
  "enclosures ex_pair_zoo = [ex_pair_enclosure]"
proof -
  define s0 where "s0 = Zoo_ctor ex_rng [0..<10] ''Zoo''"
  define s1 where "s1 = snd (buyAnimal s0 1 1)"
  define s2 where "s2 = snd (paidRefresh ex_rng [0..<10] s1)"
  define e0 where "e0 = Enclosure_ctor 1 5 HERBIVORE TEMPERATE 10"
  define m0 where "m0 = catalogAnimal ex_rng 0 1 0 (catalog ! 0)"
  define m1 where "m1 = catalogAnimal ex_rng 10 11 0 (catalog ! 0)"
  define e1 where "e1 = addAnimal (setEnclosureId 1 m0) e0"
  have c0: "canAddAnimal e0 m0"
    by (simp add: canAddAnimal_def e0_def m0_def Enclosure_ctor_def to_size_t_def deer_fields)
  have id0: "e_id e0 = 1" by (simp add: e0_def Enclosure_ctor_def)
  have p0: "day s0 \<le> 10"
    "marketAnimals s0 = m0 # map (\<lambda>k. catalogAnimal ex_rng 0 1 k (catalog ! k)) [1..<10]"
    "real_of_int (price m0) \<le> money s0" "enclosures s0 = [e0]"
    by (simp_all add: s0_def ctor_fields m0_def e0_def deer_fields)
  note b1 = buy_first [OF p0 id0 c0]
  have 1: "z_animals s1 = [setEnclosureId 1 m0]" "enclosures s1 = [e1]"
    "money s1 = 1338" "day s1 = 1" "nextId s1 = 11" "randCalls s1 = 10"
    unfolding s1_def b1 e1_def by (simp_all add: s0_def ctor_fields m0_def deer_fields)
  have c1: "canAddAnimal e1 m1"
    by (simp add: canAddAnimal_def e1_def addAnimal_def e0_def m1_def Enclosure_ctor_def
        to_size_t_def deer_fields)
  have id1: "e_id e1 = 1"
    by (simp add: e1_def addAnimal_def e0_def Enclosure_ctor_def)
  have p2: "day s2 \<le> 10"
    "marketAnimals s2 = m1 # map (\<lambda>k. catalogAnimal ex_rng 10 11 k (catalog ! k)) [1..<10]"
    "real_of_int (price m1) \<le> money s2" "enclosures s2 = [e1]"
    and a2: "z_animals s2 = [setEnclosureId 1 m0]"
    unfolding s2_def
    by (simp_all add: paidRefresh_def 1 refreshMarket_fields market_head m1_def deer_fields)
  note b2 = buy_first [OF p2 id1 c1]
  have "z_animals (snd (buyAnimal s2 1 1)) = [setEnclosureId 1 m0, setEnclosureId 1 m1]"
    unfolding b2 by (simp add: a2)
  then show "z_animals ex_pair_zoo = [ex_deer_f, ex_deer_m]"
    by (simp add: ex_pair_zoo_def s2_def s1_def s0_def m0_def m1_def ex_deer_f_def ex_deer_m_def)
  have "enclosures (snd (buyAnimal s2 1 1)) = [addAnimal (setEnclosureId 1 m1) e1]"
    by (rule b2)
  then show "enclosures ex_pair_zoo = [ex_pair_enclosure]"
    by (simp add: ex_pair_zoo_def s2_def s1_def s0_def m0_def m1_def ex_deer_f_def ex_deer_m_def
        ex_pair_enclosure_def e1_def e0_def)
qed

lemma ex_pair_reachable: "reachable ex_rng ex_pair_zoo"
  unfolding ex_pair_zoo_def
  by (intro r_buy r_refresh r_init shuffled_upt)

lemma ex_pair_breed:
  "operator_plus ex_deer_f ex_deer_m 1 21 =
     Inr (Animal_ctor
           (take 5 (fst (catalog ! 0)) @ drop 5 (fst (catalog ! 0)))
           (take 5 (fst (catalog ! 0)) @ drop 5 (fst (catalog ! 0)) @ newborn_suffix)
           0 100 TEMPERATE 150 HERBIVORE FEMALE True 1 0
           (fst (catalog ! 0), fst (catalog ! 0)) False 21)"
  by (simp add: operator_plus_def ex_deer_f_def ex_deer_m_def setEnclosureId_def catalogAnimal_def
      Animal_ctor_def ex_rng_def catalog_def Let_def bytes_def signed_divide_int_def)

lemma ex_start_reachable: "reachable (\<lambda>n. 0) ex_start"
  unfolding ex_start_def by (intro r_init shuffled_upt)

section \<open>The loops of the day advance, characterised\<close>

lemma nextDay_untilLoans: "nextDay rng indices z = loanPhase (untilLoans rng indices z)"
  by (simp add: nextDay_def untilLoans_def)

lemma loans_untilLoans: "loans (untilLoans rng indices z) = loans z"
  by (simp add: untilLoans_def moneyPhase_fields visitorsPhase_fields driftPhase_fields
      feedPhase_fields vetPhase_fields sickPhase_fields workerPhase_fields agePhase_fields
      startDay_fields)

lemma loans_loanPhase: "loans (loanPhase z) = countdown 1 (loans z)"
proof -
  have "filter (\<lambda>l. \<not> daysLeft l \<le> 0) (map loanDay ls) = countdown 1 ls" for ls
    by (induction ls) (auto simp: countdown_def loanDay_def)
  then show ?thesis by (simp add: loanPhase_def)
qed

lemma money_loanPhase:
  "money (loanPhase z) = money z - sum_list (map dailyRepayment (filter (\<lambda>l. daysLeft l > 0) (loans z)))"
proof -
  have "foldl (\<lambda>m l. if daysLeft l > 0 then m - dailyRepayment l else m) m ls
          = m - sum_list (map dailyRepayment (filter (\<lambda>l. daysLeft l > 0) ls))" for m ls
    by (induction ls arbitrary: m) simp_all
  then show ?thesis by (simp add: loanPhase_def)
qed

lemma countdown_countdown: "0 \<le> m \<Longrightarrow> 0 \<le> n \<Longrightarrow> countdown n (countdown m ls) = countdown (m + n) ls"
  by (induction ls) (auto simp: countdown_def)

lemma loans_nextDay: "loans (nextDay rng indices z) = countdown 1 (loans z)"
  by (simp add: nextDay_untilLoans loans_loanPhase loans_untilLoans)

lemma loans_advanceDays:
  "perms \<noteq> [] \<Longrightarrow> loans (advanceDays rng perms z) = countdown (int (length perms)) (loans z)"
proof (induction perms arbitrary: z)
  case Nil
  then show ?case by simp
next
  case (Cons indices rest)
  show ?case
  proof (cases "rest = []")
    case True
    then show ?thesis by (simp add: loans_nextDay)
  next
    case False
    from Cons.IH [OF False, of "nextDay rng indices z"]
    show ?thesis by (simp add: loans_nextDay countdown_countdown add.commute)
  qed
qed

lemma loans_ctor: "loans (Zoo_ctor rng indices n) = []"
  by (simp add: Zoo_ctor_def refreshMarket_fields)

lemma agePhase_empty: "z_animals z = [] \<Longrightarrow> agePhase rng z = z"
  by (cases z) (simp add: agePhase_def)

lemma sickPhase_empty: "z_animals z = [] \<Longrightarrow> sickPhase rng z = z"
  by (cases z) (simp add: sickPhase_def)

lemma vetLoop_empty: "vetLoop ws ([], encs) = ([], encs)"
  by (induction ws) simp_all

lemma vetPhase_empty: "z_animals z = [] \<Longrightarrow> vetPhase z = z"
  by (cases z) (simp add: vetPhase_def vetLoop_empty)

lemma feedPhase_empty: "z_animals z = [] \<Longrightarrow> 0 \<le> food z \<Longrightarrow> feedPhase rng z = z"
  by (cases z) (simp add: feedPhase_def foodNeeded_def)

lemma pay_salaries:
  "foldl (\<lambda>m w. m - real_of_int (salary w)) m ws = m - real_of_int (sum_list (map salary ws))"
  by (induction ws arbitrary: m) simp_all

lemma pay_upkeep:
  "foldl (\<lambda>m e. m - real_of_int (dailyCost e)) m es = m - real_of_int (sum_list (map dailyCost es))"
  by (induction es arbitrary: m) simp_all

lemma random_drift_range: "- 10 \<le> random rng pos (- 10) 10 \<and> random rng pos (- 10) 10 \<le> 10"
  by (simp add: random_def)

lemma day_one_upto_drift:
  "driftPhase rng (feedPhase rng (vetPhase (sickPhase rng (workerPhase (agePhase rng
     (startDay rng indices' (Zoo_ctor rng indices n)))))))
   = driftPhase rng (workerPhase (startDay rng indices' (Zoo_ctor rng indices n)))"
proof -
  let ?s = "startDay rng indices' (Zoo_ctor rng indices n)"
  have a: "z_animals ?s = []" and f: "food ?s = 100"
    by (simp_all add: startDay_fields Zoo_ctor_def refreshMarket_fields)
  then have a': "z_animals (workerPhase ?s) = []" and f': "0 \<le> food (workerPhase ?s)"
    by (simp_all add: workerPhase_fields)
  show ?thesis
    by (simp add: agePhase_empty [OF a] sickPhase_empty [OF a'] vetPhase_empty [OF a']
        feedPhase_empty [OF a' f'])
qed

lemma salary_workerDay: "salary (workerDay w) = salary w"
  by (simp add: workerDay_def decrementDaysAssigned_def incrementDaysWorked_def
      clearAssignedEnclosures_def Let_def)

lemma upt_Suc_shift: "[0..<Suc n] = 0 # map Suc [0..<n]"
  by (simp add: upt_conv_Cons map_Suc_upt del: upt_Suc)

lemma starved_Cons:
  "starved rng pos (a # as) =
     (if random rng pos 0 99 < 30 then [a] else []) @ starved rng (Suc pos) as"
  by (simp add: starved_def starveRoll_def upt_Suc_shift filter_map o_def del: upt_Suc)

lemma spared_Cons:
  "spared rng pos (a # as) =
     (if random rng pos 0 99 < 30 then [] else [a]) @ spared rng (Suc pos) as"
  by (simp add: spared_def starveRoll_def upt_Suc_shift filter_map o_def del: upt_Suc)

lemma starveLoop_kept: "fst (starveLoop rng as z) = spared rng (randCalls z) as"
  by (induction as arbitrary: z) (simp_all add: spared_Cons split_beta, simp add: spared_def)

lemma starveLoop_randCalls: "randCalls (snd (starveLoop rng as z)) = randCalls z + length as"
  by (induction as arbitrary: z) (simp_all add: split_beta)

lemma starveLoop_total:
  "totalAnimals (snd (starveLoop rng as z))
     = totalAnimals z - int (length (starved rng (randCalls z) as))"
  by (induction as arbitrary: z) (simp_all add: starved_Cons split_beta, simp add: starved_def)

lemma starveLoop_enclosures:
  "enclosures (snd (starveLoop rng as z))
     = foldl (\<lambda>encs a. detach a encs) (enclosures z) (starved rng (randCalls z) as)"
  by (induction as arbitrary: z) (simp_all add: starved_Cons split_beta, simp add: starved_def)

lemma foodNeeded_demand: "foodNeeded as = foodDemand as"
proof -
  have "foldl (\<lambda>n a. n + (if a_type a = HERBIVORE then 1 else 2)) k as = k + foodDemand as" for k
  proof (induction as arbitrary: k)
    case Nil
    then show ?case by (simp add: foodDemand_def)
  next
    case (Cons a as)
    then show ?case by (cases "a_type a") (simp_all add: foodDemand_def)
  qed
  then show ?thesis by (simp add: foodNeeded_def)
qed

lemma find_onFirst:
  "find (hasId i) (onFirst (hasId j) f encs) =
     (if i = j then map_option f (find (hasId i) encs)
      else find (hasId i) encs)" if "\<And>e. e_id (f e) = e_id e"
  using that by (induction encs) (auto simp: hasId_def)

lemma absent_detach_self: "absent a (detach a encs)"
  by (auto simp: absent_def detach_def find_onFirst removeAnimal_def split: option.splits)

lemma absent_detach: "absent a encs \<Longrightarrow> absent a (detach b encs)"
  by (auto simp: absent_def detach_def find_onFirst removeAnimal_def split: option.splits)

lemma absent_foldl: "absent a encs \<Longrightarrow> absent a (foldl (\<lambda>encs a. detach a encs) encs ds)"
  by (induction ds arbitrary: encs) (simp_all add: absent_detach)

lemma absent_all: "\<forall>a \<in> set ds. absent a (foldl (\<lambda>encs a. detach a encs) encs ds)"
  by (induction ds arbitrary: encs) (simp_all add: absent_foldl absent_detach_self)

lemma grow_eq: "incrementAgeDays (incrementDaysSincePurchase a) = grow a"
  by (simp add: grow_def incrementAgeDays_def incrementDaysSincePurchase_def)

lemma grow_fields: "ageDays (grow a) = ageDays a + 1" "enclosureId (grow a) = enclosureId a"
  "uniqueId (grow a) = uniqueId a"
  by (simp_all add: grow_def)

lemma diesOfAge_0:
  "diesOfAge rng pos (a # as) 0 \<longleftrightarrow> ageDays a + 1 > 30 \<and> random rng pos 0 99 < ageDays a + 1"
  by (simp add: diesOfAge_def ageRollIndex_def)

lemma diesOfAge_Suc:
  "diesOfAge rng pos (a # as) (Suc i)
     \<longleftrightarrow> diesOfAge rng (if ageDays a + 1 > 30 then Suc pos else pos) as i"
  by (simp add: diesOfAge_def ageRollIndex_def)

lemma deadOfAge_Cons:
  "deadOfAge rng pos (a # as) =
     (if ageDays a + 1 > 30 \<and> random rng pos 0 99 < ageDays a + 1 then [grow a] else [])
     @ deadOfAge rng (if ageDays a + 1 > 30 then Suc pos else pos) as"
  by (simp add: deadOfAge_def upt_Suc_shift filter_map o_def diesOfAge_0 diesOfAge_Suc del: upt_Suc)

lemma survivors_Cons:
  "survivors rng pos (a # as) =
     (if ageDays a + 1 > 30 \<and> random rng pos 0 99 < ageDays a + 1 then [] else [grow a])
     @ survivors rng (if ageDays a + 1 > 30 then Suc pos else pos) as"
  by (simp add: survivors_def upt_Suc_shift filter_map o_def diesOfAge_0 diesOfAge_Suc del: upt_Suc)

lemma ageLoop_kept: "fst (ageLoop rng as z) = survivors rng (randCalls z) as"
proof (induction as arbitrary: z)
  case Nil
  then show ?case by (simp add: survivors_def)
next
  case (Cons a as)
  then show ?case
    by (simp add: survivors_Cons split_beta grow_eq grow_fields Let_def)
qed

lemma ageLoop_total:
  "totalAnimals (snd (ageLoop rng as z))
     = totalAnimals z - int (length (deadOfAge rng (randCalls z) as))"
proof (induction as arbitrary: z)
  case Nil
  then show ?case by (simp add: deadOfAge_def)
next
  case (Cons a as)
  then show ?case
    by (simp add: deadOfAge_Cons split_beta grow_eq grow_fields Let_def)
qed

lemma ageLoop_enclosures:
  "enclosures (snd (ageLoop rng as z))
     = foldl (\<lambda>encs a. detach a encs) (enclosures z) (deadOfAge rng (randCalls z) as)"
proof (induction as arbitrary: z)
  case Nil
  then show ?case by (simp add: deadOfAge_def)
next
  case (Cons a as)
  then show ?case
    by (simp add: deadOfAge_Cons split_beta grow_eq grow_fields Let_def)
qed

lemma random_range: "0 \<le> random rng pos 0 99 \<and> random rng pos 0 99 \<le> 99"
  by (simp add: random_def)

lemma ex_ages: "ageDays ex_elder = 120" "ageDays ex_rabbit = 3" "ageDays ex_deer = 10"
  "a_type ex_deer = HERBIVORE" "a_type ex_rabbit = HERBIVORE"
  by (simp_all add: ex_elder_def ex_rabbit_def ex_deer_def Animal_ctor_def)

lemma ex_zoo_fields: "z_animals ex_zoo = [ex_deer, ex_rabbit]" "food ex_zoo = 100"
  "randCalls ex_zoo = 10" "totalAnimals ex_zoo = 2"
  by (simp_all add: ex_zoo_def)

lemma random_is_rand: "random rng k 0 99 = int (rng k) mod 100"
  by (simp add: random_def)

lemma starveRoll_is_rand: "starveRoll rng pos i = int (rng (pos + i)) mod 100"
  by (simp add: starveRoll_def random_def)

lemma ageRollIndex_Suc_Cons:
  "ageRollIndex (a # as) (Suc n) = (if ageDays a + 1 > 30 then 1 else 0) + ageRollIndex as n"
  by (simp add: ageRollIndex_def)

lemma ageLoop_randCalls:
  "randCalls (snd (ageLoop rng as z)) = randCalls z + ageRollIndex as (length as)"
proof (induction as arbitrary: z)
  case Nil
  then show ?case by (simp add: ageRollIndex_def)
next
  case (Cons a as)
  then show ?case
    by (simp add: ageRollIndex_Suc_Cons split_beta grow_eq grow_fields Let_def)
qed

lemma ageRollIndex_step:
  "j < length as \<Longrightarrow>
   ageRollIndex as (Suc j) = ageRollIndex as j + (if ageDays (as ! j) + 1 > 30 then 1 else 0)"
  by (simp add: ageRollIndex_def take_Suc_conv_app_nth)

lemma ageRollIndex_mono: "k \<le> i \<Longrightarrow> ageRollIndex as k \<le> ageRollIndex as i"
proof -
  assume ki: "k \<le> i"
  have "take k (take i as) @ drop k (take i as) = take i as" by (rule append_take_drop_id)
  moreover from ki have "take k (take i as) = take k as" by (simp add: min_def)
  ultimately have "take i as = take k as @ drop k (take i as)" by simp
  then have "filter (\<lambda>a. ageDays a + 1 > 30) (take i as)
      = filter (\<lambda>a. ageDays a + 1 > 30) (take k as)
        @ filter (\<lambda>a. ageDays a + 1 > 30) (drop k (take i as))"
    by (metis filter_append)
  then show ?thesis by (simp add: ageRollIndex_def)
qed

lemma ageRollIndex_own:
  assumes "j < i" "i \<le> length as" "ageDays (as ! j) + 1 > 30"
  shows "ageRollIndex as j < ageRollIndex as i"
proof -
  from assms have "ageRollIndex as (Suc j) = ageRollIndex as j + 1"
    by (simp add: ageRollIndex_step)
  moreover from assms(1) have "ageRollIndex as (Suc j) \<le> ageRollIndex as i"
    by (intro ageRollIndex_mono) simp
  ultimately show ?thesis by simp
qed

section \<open>Breeding: when it is refused\<close>

text \<open>
  Claim C5. \<^verbatim>\<open>operator+\<close> throws exactly when the two animals are in different enclosures,
  or have the same sex, or one of them is at most 5 days old. Whenever the pair chosen in
  the breeding menu is such a pair, the action ends without \<open>Done\<close> and the zoo (registry,
  enclosures, counter, identity counter and random position included) is what it was.
\<close>

theorem breed_refused_iff_ineligible:
  "(operator_plus a b r uid = Inl runtime_error \<longleftrightarrow>
      (enclosureId a \<noteq> enclosureId b \<or> gender a = gender b \<or> ageDays a \<le> 5 \<or> ageDays b \<le> 5))
   \<and> (enclosureId (z_animals z ! nat (first - 1)) \<noteq> enclosureId (z_animals z ! nat (second - 1))
        \<or> gender (z_animals z ! nat (first - 1)) = gender (z_animals z ! nat (second - 1))
        \<or> ageDays (z_animals z ! nat (first - 1)) \<le> 5
        \<or> ageDays (z_animals z ! nat (second - 1)) \<le> 5
       \<longrightarrow> snd (manageBreeding rng z first second) = z
           \<and> fst (manageBreeding rng z first second) \<noteq> Done)"
  by (auto simp: operator_plus_def manageBreeding_def Let_def split: sum.splits)

theorem breed_refused_iff_ineligible_witness:
  "operator_plus ex_deer ex_rabbit 0 11 = Inl runtime_error
   \<and> gender (z_animals ex_zoo ! nat (1 - 1)) = gender (z_animals ex_zoo ! nat (2 - 1))
   \<and> snd (manageBreeding (\<lambda>n. 0) ex_zoo 1 2) = ex_zoo
   \<and> fst (manageBreeding (\<lambda>n. 0) ex_zoo 1 2) \<noteq> Done"
proof -
  have g: "gender (z_animals ex_zoo ! nat (1 - 1)) = gender (z_animals ex_zoo ! nat (2 - 1))"
    by (simp add: ex_zoo_def ex_deer_def ex_rabbit_def Animal_ctor_def)
  have s: "gender ex_deer = gender ex_rabbit"
    by (simp add: ex_deer_def ex_rabbit_def Animal_ctor_def)
  from breed_refused_iff_ineligible [of ex_deer ex_rabbit 0 11 ex_zoo 1 2 "\<lambda>n. 0"] g s
  show ?thesis by blast
qed

section \<open>Workers in the day advance\<close>

lemma workers_nextDay: "workers (nextDay rng indices z) = map workerDay (workers z)"
  by (simp add: nextDay_def loanPhase_fields moneyPhase_fields visitorsPhase_fields
      driftPhase_fields feedPhase_fields vetPhase_fields sickPhase_fields agePhase_fields
      startDay_fields workerPhase_def)

lemma workers_Zoo_ctor:
  "workers (Zoo_ctor rng indices n) =
     [Worker_ctor (bytes [208, 154, 46, 208, 151]) DIRECTOR 60 0 [] 0 0,
      Worker_ctor (bytes [209, 130, 209, 128, 208, 184, 208, 189, 208, 184, 209, 130, 208, 184])
        CLEANER 30 0 [1] 0 0,
      Worker_ctor (bytes [208, 188, 208, 190, 209, 128, 209, 132]) VETERINARIAN 50 20 [] 0 0,
      Worker_ctor (bytes [208, 180, 208, 184, 209, 132, 208, 181, 209, 128, 208, 181, 208, 189,
                          209, 129]) FEEDER 40 0 [2] 0 0]"
  by (simp add: Zoo_ctor_def refreshMarket_fields)

text \<open>
  Claim C8, as the code has it. A day advance keeps every worker in place, adds 1 to the
  days worked, takes 1 from the assignment duration only when it is positive, and empties
  the assignments exactly when the duration is 0 after that step (whether it was counted
  down to 0 or was 0 already); otherwise the assignments stay.
\<close>

theorem worker_day:
  "length (workers (nextDay rng indices z)) = length (workers z)
   \<and> (\<forall>i < length (workers z).
        w_name (workers (nextDay rng indices z) ! i) = w_name (workers z ! i)
      \<and> w_type (workers (nextDay rng indices z) ! i) = w_type (workers z ! i)
      \<and> salary (workers (nextDay rng indices z) ! i) = salary (workers z ! i)
      \<and> maxAnimals (workers (nextDay rng indices z) ! i) = maxAnimals (workers z ! i)
      \<and> daysWorked (workers (nextDay rng indices z) ! i) = daysWorked (workers z ! i) + 1
      \<and> daysAssigned (workers (nextDay rng indices z) ! i) =
            (if daysAssigned (workers z ! i) > 0 then daysAssigned (workers z ! i) - 1
             else daysAssigned (workers z ! i))
      \<and> assignedEnclosures (workers (nextDay rng indices z) ! i) =
            (if daysAssigned (workers (nextDay rng indices z) ! i) = 0 then []
             else assignedEnclosures (workers z ! i)))"
  by (simp add: workers_nextDay workerDay_def decrementDaysAssigned_def incrementDaysWorked_def
      clearAssignedEnclosures_def Let_def)

theorem worker_day_witness:
  "1 < length (workers ex_start)
   \<and> daysWorked (workers (nextDay (\<lambda>n. 0) [0..<10] ex_start) ! 1) = 1
   \<and> daysAssigned (workers (nextDay (\<lambda>n. 0) [0..<10] ex_start) ! 1) = 0
   \<and> assignedEnclosures (workers (nextDay (\<lambda>n. 0) [0..<10] ex_start) ! 1) = []"
proof -
  have w: "workers ex_start ! Suc 0 =
      Worker_ctor (bytes [209, 130, 209, 128, 208, 184, 208, 189, 208, 184, 209, 130, 208, 184])
        CLEANER 30 0 [1] 0 0"
    and l: "1 < length (workers ex_start)"
    by (simp_all add: ex_start_def workers_Zoo_ctor)
  from worker_day [of "\<lambda>n. 0" "[0..<10]" ex_start] l
  have "daysWorked (workers (nextDay (\<lambda>n. 0) [0..<10] ex_start) ! 1)
          = daysWorked (workers ex_start ! 1) + 1
      \<and> daysAssigned (workers (nextDay (\<lambda>n. 0) [0..<10] ex_start) ! 1) =
            (if daysAssigned (workers ex_start ! 1) > 0 then daysAssigned (workers ex_start ! 1) - 1
             else daysAssigned (workers ex_start ! 1))
      \<and> assignedEnclosures (workers (nextDay (\<lambda>n. 0) [0..<10] ex_start) ! 1) =
            (if daysAssigned (workers (nextDay (\<lambda>n. 0) [0..<10] ex_start) ! 1) = 0 then []
             else assignedEnclosures (workers ex_start ! 1))"
    by blast
  with l show ?thesis by (simp add: w Worker_ctor_def)
qed

text \<open>
  The claim's wording fails on the first day of every game: the cleaner starts with
  enclosure 1 assigned and duration 0; nothing is counted down, and the assignment is gone.
\<close>

theorem cleared_without_countdown_counterexample:
  "\<not> cleared_on_countdown_only (workers ex_start ! 1)
       (workers (nextDay (\<lambda>n. 0) [0..<10] ex_start) ! 1)"
  by (simp add: cleared_on_countdown_only_def workers_nextDay ex_start_def workers_Zoo_ctor
      workerDay_def decrementDaysAssigned_def incrementDaysWorked_def
      clearAssignedEnclosures_def Worker_ctor_def Let_def)

section \<open>Placement\<close>

text \<open>
  Claim C1. In every reachable state of a game (the constructor's state and every state
  that purchases, sales, renamings, market refreshes, hirings, firings, assignments, food
  and advertising purchases, loans, buildings, breedings and day advances lead to), every
  resident of every enclosure has the enclosure's diet class and climate, and no enclosure
  holds more residents than its capacity.
\<close>

theorem placement_invariant:
  assumes "reachable rng z"
  shows "\<forall>e \<in> set (enclosures z).
           (\<forall>a \<in> set (e_animals e). a_type a = animalType e \<and> preferredClimate a = climate e)
           \<and> int (length (e_animals e)) \<le> capacity e"
  using reachable_inv [OF assms]
  by (simp add: zoo_inv_def encs_inv_def enclosure_ok_def fits_def)

theorem placement_invariant_witness:
  "reachable ex_rng ex_pair_zoo
   \<and> ex_pair_enclosure \<in> set (enclosures ex_pair_zoo)
   \<and> ex_deer_m \<in> set (e_animals ex_pair_enclosure)
   \<and> a_type ex_deer_m = animalType ex_pair_enclosure
   \<and> preferredClimate ex_deer_m = climate ex_pair_enclosure
   \<and> int (length (e_animals ex_pair_enclosure)) \<le> capacity ex_pair_enclosure"
proof -
  have e: "ex_pair_enclosure \<in> set (enclosures ex_pair_zoo)"
    by (simp add: ex_pair_animals(2))
  have m: "ex_deer_m \<in> set (e_animals ex_pair_enclosure)"
    by (simp add: ex_pair_enclosure_def addAnimal_def)
  from placement_invariant [OF ex_pair_reachable] e m ex_pair_reachable
  show ?thesis by blast
qed

section \<open>Breeding: the newborn\<close>

lemma floor_half: "\<lfloor>real_of_int x / 2\<rfloor> = x div 2"
  using floor_divide_of_int_eq [of x 2] by simp

text \<open>
  Claim C4. For two animals of the zoo, when \<^verbatim>\<open>operator+\<close> returns a newborn: its species
  is the first half of the first parent's species followed by the second half of the
  second parent's, its name is that species with the newborn suffix, its sex is male or
  female, its weight is a quarter of the parents' total weight, its price is the floor of
  the mean of the parents' prices, its diet class, climate and enclosure are the first
  parent's, its age is 0, its parents are the two display names, and it is born in the zoo.
\<close>

theorem newborn_fields:
  assumes "reachable rng z" "a \<in> set (z_animals z)" "b \<in> set (z_animals z)"
    and "operator_plus a b r uid = Inr n"
  shows "species n = take (length (species a) div 2) (species a)
                       @ drop (length (species b) div 2) (species b)
    \<and> displayName n = species n @ newborn_suffix
    \<and> gender n \<in> {MALE, FEMALE}
    \<and> weight n = (weight a + weight b) / 4
    \<and> price n = \<lfloor>real_of_int (price a + price b) / 2\<rfloor>
    \<and> a_type n = a_type a \<and> preferredClimate n = preferredClimate a
    \<and> enclosureId n = enclosureId a
    \<and> ageDays n = 0
    \<and> parents n = (displayName a, displayName b)
    \<and> isBornInZoo n"
proof -
  from reachable_inv [OF assms(1)] assms(2,3) have "0 \<le> price a + price b"
    by (simp add: zoo_inv_def)
  then have "(price a + price b) sdiv 2 = \<lfloor>real_of_int (price a + price b) / 2\<rfloor>"
    by (simp only: sdiv_nonneg floor_half)
  with operator_plus_Inr [OF assms(4)] show ?thesis by simp
qed

theorem newborn_fields_witness:
  "reachable ex_rng ex_pair_zoo
   \<and> ex_deer_f \<in> set (z_animals ex_pair_zoo) \<and> ex_deer_m \<in> set (z_animals ex_pair_zoo)
   \<and> (\<exists>n. operator_plus ex_deer_f ex_deer_m 1 21 = Inr n
          \<and> price n = 150 \<and> weight n = 100 \<and> ageDays n = 0 \<and> gender n = FEMALE
          \<and> enclosureId n = 1 \<and> isBornInZoo n)"
proof -
  have f: "ex_deer_f \<in> set (z_animals ex_pair_zoo)" and m: "ex_deer_m \<in> set (z_animals ex_pair_zoo)"
    by (simp_all add: ex_pair_animals(1))
  obtain n where n: "operator_plus ex_deer_f ex_deer_m 1 21 = Inr n"
    and g: "gender n = FEMALE"
    using ex_pair_breed by (simp add: Animal_ctor_def)
  have v: "price ex_deer_f = 150" "price ex_deer_m = 150" "weight ex_deer_f = 200"
    "weight ex_deer_m = 200" "enclosureId ex_deer_f = 1"
    by (simp_all add: ex_deer_f_def ex_deer_m_def setEnclosureId_def catalogAnimal_def
        catalog_def Animal_ctor_def)
  from newborn_fields [OF ex_pair_reachable f m n] v
  have "price n = 150 \<and> weight n = 100 \<and> ageDays n = 0 \<and> enclosureId n = 1 \<and> isBornInZoo n"
    by simp
  with ex_pair_reachable f m n g show ?thesis by blast
qed

section \<open>The market refresh\<close>

lemma catalog_species_distinct: "distinct (map fst catalog)"
  by (simp add: catalog_def bytes_def)

text \<open>
  Claim C9. Whatever permutation the shuffle produces, a refresh leaves an offer list of
  exactly min(10, catalogue size) = 10 animals, all of them among the ten freshly built
  catalogue animals, no species and no identity twice; the list does not depend on the
  offers held before, every offer carries an identity not used before the refresh, and in
  a reachable state none of the previous offers is among the new ones.
\<close>

theorem refresh_replaces_market:
  assumes "shuffled indices (length catalog)"
  shows "length (marketAnimals (refreshMarket rng indices z)) = min 10 (length catalog)
    \<and> set (marketAnimals (refreshMarket rng indices z))
        \<subseteq> set (getAvailableAnimals rng (randCalls z) (nextId z))
    \<and> distinct (map species (marketAnimals (refreshMarket rng indices z)))
    \<and> distinct (map uniqueId (marketAnimals (refreshMarket rng indices z)))
    \<and> marketAnimals (refreshMarket rng indices (z\<lparr>marketAnimals := previous\<rparr>))
        = marketAnimals (refreshMarket rng indices z)
    \<and> (\<forall>a \<in> set (marketAnimals (refreshMarket rng indices z)). nextId z \<le> uniqueId a)
    \<and> (reachable rng z \<longrightarrow>
          set (marketAnimals (refreshMarket rng indices z)) \<inter> set (marketAnimals z) = {})"
proof -
  note f = shuffled_facts [OF assms]
  note m = marketAnimals_refresh [OF assms]
  have r: "k < 10" if "k \<in> set indices" for k
    using that f(2) by (simp add: length_catalog)
  have 1: "length (marketAnimals (refreshMarket rng indices z)) = min 10 (length catalog)"
    using f(1) by (simp add: m length_catalog)
  have 2: "set (marketAnimals (refreshMarket rng indices z))
        \<subseteq> set (getAvailableAnimals rng (randCalls z) (nextId z))"
    using r by (auto simp: m getAvailableAnimals_def length_catalog)
  have "map species (marketAnimals (refreshMarket rng indices z))
          = map (\<lambda>k. map fst catalog ! k) indices"
    using r by (simp add: m catalogAnimal_fields length_catalog)
  moreover have "inj_on (\<lambda>k. map fst catalog ! k) (set indices)"
  proof (rule inj_onI)
    fix x y
    assume xy: "x \<in> set indices" "y \<in> set indices"
      and eq: "map fst catalog ! x = map fst catalog ! y"
    from xy r have "x < length (map fst catalog)" "y < length (map fst catalog)"
      by (simp_all add: length_catalog)
    with nth_eq_iff_index_eq [OF catalog_species_distinct, of x y] eq show "x = y" by simp
  qed
  then have "distinct (map (\<lambda>k. map fst catalog ! k) indices)"
    using f(3) by (simp add: distinct_map)
  ultimately have 3: "distinct (map species (marketAnimals (refreshMarket rng indices z)))"
    by simp
  have 4: "distinct (map uniqueId (marketAnimals (refreshMarket rng indices z)))"
    using f(3) by (simp add: m catalogAnimal_fields distinct_map inj_on_def o_def)
  have 5: "marketAnimals (refreshMarket rng indices (z\<lparr>marketAnimals := previous\<rparr>))
        = marketAnimals (refreshMarket rng indices z)"
    by (simp add: refreshMarket_def)
  have 6: "\<forall>a \<in> set (marketAnimals (refreshMarket rng indices z)). nextId z \<le> uniqueId a"
    by (auto simp: m catalogAnimal_fields)
  have 7: "set (marketAnimals (refreshMarket rng indices z)) \<inter> set (marketAnimals z) = {}"
    if "reachable rng z"
  proof -
    from reachable_inv [OF that] have "\<forall>a \<in> set (marketAnimals z). uniqueId a < nextId z"
      by (simp add: zoo_inv_def)
    with 6 show ?thesis by fastforce
  qed
  from 1 2 3 4 5 6 7 show ?thesis by blast
qed

theorem refresh_replaces_market_witness:
  "shuffled [0..<10] (length catalog) \<and> reachable (\<lambda>n. 0) ex_start
   \<and> length (marketAnimals (refreshMarket (\<lambda>n. 0) [0..<10] ex_start)) = 10
   \<and> distinct (map species (marketAnimals (refreshMarket (\<lambda>n. 0) [0..<10] ex_start)))
   \<and> set (marketAnimals (refreshMarket (\<lambda>n. 0) [0..<10] ex_start))
        \<inter> set (marketAnimals ex_start) = {}"
  using refresh_replaces_market [OF shuffled_upt, of "\<lambda>n. 0" ex_start "[]"]
    shuffled_upt ex_start_reachable
  by (simp add: length_catalog)

section \<open>Building an enclosure\<close>

text \<open>
  Claim C10. In a reachable state (or with no enclosure at all), for inputs the prompts
  accept: building succeeds exactly when the cash is at least 50 times the capacity; then
  exactly that amount is taken, and an empty enclosure of that capacity, with daily cost
  twice the capacity and with the highest identity so far plus 1 (1 when there is none), is
  appended, nothing else changing; otherwise the action is declined and the zoo is as before.
\<close>

theorem build_enclosure:
  assumes "reachable rng z \<or> enclosures z = []"
    and "1 \<le> cap" "cap \<le> 100" "1 \<le> typeChoice" "typeChoice \<le> 2"
    and "1 \<le> climateChoice" "climateChoice \<le> 3"
  shows "(fst (buildEnclosure z cap typeChoice climateChoice) = Done
            \<longleftrightarrow> money z \<ge> real_of_int (50 * cap))
    \<and> (money z \<ge> real_of_int (50 * cap) \<longrightarrow>
         snd (buildEnclosure z cap typeChoice climateChoice)
           = z\<lparr>enclosures := enclosures z @
                  [\<lparr>e_id = (if enclosures z = [] then 1 else Max (e_id ` set (enclosures z)) + 1),
                    capacity = cap,
                    animalType = (if typeChoice = 1 then HERBIVORE else CARNIVORE),
                    climate = (if climateChoice = 1 then TROPICAL
                               else if climateChoice = 2 then TEMPERATE else ARCTIC),
                    dailyCost = 2 * cap, e_animals = []\<rparr>],
                money := money z - real_of_int (50 * cap)\<rparr>)
    \<and> (\<not> money z \<ge> real_of_int (50 * cap) \<longrightarrow>
         buildEnclosure z cap typeChoice climateChoice = (InsufficientFunds, z))"
proof -
  note fst = buildEnclosure_fst [OF assms(2-7), of z]
  have last: "lastId z = Max (e_id ` set (enclosures z))" if "enclosures z \<noteq> []"
  proof -
    from assms(1) that have "reachable rng z" by simp
    then have "sorted_wrt (<) (map e_id (enclosures z))"
      using reachable_inv by (simp add: zoo_inv_def encs_inv_def)
    with that have "Max (set (map e_id (enclosures z))) = last (map e_id (enclosures z))"
      by (intro Max_ids) simp_all
    with that show ?thesis by (simp add: lastId_def last_map)
  qed
  have a: "fst (buildEnclosure z cap typeChoice climateChoice) = Done
            \<longleftrightarrow> money z \<ge> real_of_int (50 * cap)"
    by (simp add: fst)
  have b: "snd (buildEnclosure z cap typeChoice climateChoice)
           = z\<lparr>enclosures := enclosures z @
                  [\<lparr>e_id = (if enclosures z = [] then 1 else Max (e_id ` set (enclosures z)) + 1),
                    capacity = cap,
                    animalType = (if typeChoice = 1 then HERBIVORE else CARNIVORE),
                    climate = (if climateChoice = 1 then TROPICAL
                               else if climateChoice = 2 then TEMPERATE else ARCTIC),
                    dailyCost = 2 * cap, e_animals = []\<rparr>],
                money := money z - real_of_int (50 * cap)\<rparr>"
    if "money z \<ge> real_of_int (50 * cap)"
    using that last assms(6,7)
    by (simp add: buildEnclosure_snd fst Enclosure_ctor_def mult.commute)
  have c: "buildEnclosure z cap typeChoice climateChoice = (InsufficientFunds, z)"
    if "\<not> money z \<ge> real_of_int (50 * cap)"
    using that fst by (simp add: prod_eq_iff buildEnclosure_snd)
  from a b c show ?thesis by blast
qed

theorem build_enclosure_witness:
  "reachable (\<lambda>n. 0) ex_start
   \<and> fst (buildEnclosure ex_start 5 1 2) = Done
   \<and> money (snd (buildEnclosure ex_start 5 1 2)) = 1238
   \<and> map e_id (enclosures (snd (buildEnclosure ex_start 5 1 2))) = [1, 2]
   \<and> map dailyCost (enclosures (snd (buildEnclosure ex_start 5 1 2))) = [10, 10]"
proof -
  have m: "money ex_start = 1488"
    and e: "enclosures ex_start = [Enclosure_ctor 1 5 HERBIVORE TEMPERATE 10]"
    by (simp_all add: ex_start_def ctor_fields)
  from build_enclosure [of "\<lambda>n. 0" ex_start 5 1 2] ex_start_reachable m
  have "fst (buildEnclosure ex_start 5 1 2) = Done"
    and "snd (buildEnclosure ex_start 5 1 2)
           = ex_start\<lparr>enclosures := enclosures ex_start @
                  [\<lparr>e_id = (if enclosures ex_start = [] then 1
                            else Max (e_id ` set (enclosures ex_start)) + 1),
                    capacity = 5,
                    animalType = (if (1::int) = 1 then HERBIVORE else CARNIVORE),
                    climate = (if (2::int) = 1 then TROPICAL
                               else if (2::int) = 2 then TEMPERATE else ARCTIC),
                    dailyCost = 2 * 5, e_animals = []\<rparr>],
                money := money ex_start - real_of_int (50 * 5)\<rparr>"
    by simp_all
  with ex_start_reachable show ?thesis
    by (simp add: m e Enclosure_ctor_def)
qed

section \<open>Loans\<close>

text \<open>
  Claim C6. A loan with a positive term is created with the daily repayment
  (principal + principal * rate * term) / term, 105 for 1000 over 10 days at 0.005, and with
  its remaining days equal to the term. In a day advance the repayment of every loan with
  days remaining is taken from the cash, every such loan loses one day, and the loans that
  reach 0 are dropped; after n day advances (n at least 1) the loan list is the list of the
  loans that had more than n days left, each with n days fewer: a loan is there, counting
  down, for term - 1 days and is gone after exactly term days.
\<close>

theorem loan_schedule:
  assumes "0 < d"
  shows "(\<exists>l. Loan_ctor p d rate = Inr l
              \<and> dailyRepayment l = (p + p * rate * real_of_int d) / real_of_int d
              \<and> daysLeft l = d)
    \<and> (\<exists>l. Loan_ctor 1000 10 0.005 = Inr l \<and> dailyRepayment l = 105)
    \<and> nextDay rng indices z = loanPhase (untilLoans rng indices z)
    \<and> loans (untilLoans rng indices z) = loans z
    \<and> money (nextDay rng indices z) = money (untilLoans rng indices z)
         - sum_list (map dailyRepayment (filter (\<lambda>l. daysLeft l > 0) (loans z)))
    \<and> loans (nextDay rng indices z)
         = map (\<lambda>l. l\<lparr>daysLeft := daysLeft l - 1\<rparr>) (filter (\<lambda>l. daysLeft l > 1) (loans z))
    \<and> (perms \<noteq> [] \<longrightarrow>
          loans (advanceDays rng perms z)
            = map (\<lambda>l. l\<lparr>daysLeft := daysLeft l - int (length perms)\<rparr>)
                (filter (\<lambda>l. daysLeft l > int (length perms)) (loans z)))"
proof -
  from assms have 1: "\<exists>l. Loan_ctor p d rate = Inr l
              \<and> dailyRepayment l = (p + p * rate * real_of_int d) / real_of_int d
              \<and> daysLeft l = d"
    by (simp add: Loan_ctor_def Let_def)
  have 2: "\<exists>l. Loan_ctor 1000 10 0.005 = Inr l \<and> dailyRepayment l = 105"
    by (simp add: Loan_ctor_def Let_def)
  have 3: "money (nextDay rng indices z) = money (untilLoans rng indices z)
         - sum_list (map dailyRepayment (filter (\<lambda>l. daysLeft l > 0) (loans z)))"
    by (simp add: nextDay_untilLoans money_loanPhase loans_untilLoans)
  from 1 2 3 show ?thesis
    using nextDay_untilLoans [of rng indices z] loans_untilLoans [of rng indices z]
      loans_nextDay [of rng indices z] loans_advanceDays [of perms rng z]
    unfolding countdown_def by simp
qed

theorem loan_schedule_witness:
  "(0::int) < 10
   \<and> loans ex_loan_zoo = [\<lparr>principal = 1000, days = 10, dailyInterestRate = 0.005,
                             dailyRepayment = 105, daysLeft = 10\<rparr>]
   \<and> (\<exists>l. Loan_ctor 1000 10 0.005 = Inr l \<and> dailyRepayment l = 105)
   \<and> replicate 10 [0..<10] \<noteq> []
   \<and> loans (advanceDays (\<lambda>n. 0) (replicate 9 [0..<10]) ex_loan_zoo)
        = [\<lparr>principal = 1000, days = 10, dailyInterestRate = 0.005,
            dailyRepayment = 105, daysLeft = 1\<rparr>]
   \<and> loans (advanceDays (\<lambda>n. 0) (replicate 10 [0..<10]) ex_loan_zoo) = []"
proof -
  have l: "loans ex_loan_zoo = [\<lparr>principal = 1000, days = 10, dailyInterestRate = 0.005,
                             dailyRepayment = 105, daysLeft = 10\<rparr>]"
    by (simp add: ex_loan_zoo_def takeLoan_def Loan_ctor_def default_rate_def Let_def
        ex_start_def loans_ctor)
  have d: "(0::int) < 10" by simp
  note t9 = loan_schedule [OF d, of 1000 "0.005" "\<lambda>n. 0" "[0..<10]" ex_loan_zoo "replicate 9 [0..<10]"]
  note t10 = loan_schedule [OF d, of 1000 "0.005" "\<lambda>n. 0" "[0..<10]" ex_loan_zoo "replicate 10 [0..<10]"]
  from t9 have 9: "loans (advanceDays (\<lambda>n. 0) (replicate 9 [0..<10]) ex_loan_zoo)
        = [\<lparr>principal = 1000, days = 10, dailyInterestRate = 0.005,
            dailyRepayment = 105, daysLeft = 1\<rparr>]"
    by (simp add: l)
  from t10 have 10: "loans (advanceDays (\<lambda>n. 0) (replicate 10 [0..<10]) ex_loan_zoo) = []"
    by (simp add: l)
  from t10 have e: "\<exists>l. Loan_ctor 1000 10 0.005 = Inr l \<and> dailyRepayment l = 105" by blast
  from l 9 10 e show ?thesis by simp
qed

section \<open>The first day\<close>

text \<open>
  Claim C7. The constructor's state has cash 1488, food 100, popularity 50, one enclosure
  of capacity 5 and four workers, one of them the director. Whatever the random sequence
  and the shuffles, the first day advance (there are no animals, so nobody dies or falls
  sick) sets the visitors to the truncation of the popularity after the drift, which is
  its floor, and changes the cash by visitors times animals minus all salaries minus all
  upkeep, to 1298; when the special-visitor roll brings nobody, the popularity after the
  day is the popularity after the drift.
\<close>

theorem first_day:
  fixes rng indices indices' n
  defines "z0 \<equiv> Zoo_ctor rng indices n"
  defines "z1 \<equiv> nextDay rng indices' z0"
  defines "p \<equiv> 50 * (1 + real_of_int (random rng 20 (- 10) 10) / 100)"
  shows "money z0 = 1488 \<and> food z0 = 100 \<and> popularity z0 = 50
    \<and> map capacity (enclosures z0) = [5] \<and> map w_type (workers z0) = [DIRECTOR, CLEANER, VETERINARIAN, FEEDER]
    \<and> popularity (driftPhase rng (feedPhase rng (vetPhase (sickPhase rng (workerPhase
          (agePhase rng (startDay rng indices' z0))))))) = p
    \<and> visitors z1 = to_int p \<and> to_int p = \<lfloor>p\<rfloor>
    \<and> money z1 = money z0 + real_of_int (visitors z1 * totalAnimals z1)
                   - real_of_int (sum_list (map salary (workers z0)))
                   - real_of_int (sum_list (map dailyCost (enclosures z0)))
    \<and> totalAnimals z1 = 0 \<and> money z1 = 1298
    \<and> (random rng 21 0 99 < 20 \<or> 50 \<le> random rng 21 0 99 \<longrightarrow>
          popularity z1 = p \<and> specialVisitorType z1 = None_str \<and> specialVisitorCount z1 = 0)"
proof -
  define s where "s = workerPhase (startDay rng indices' z0)"
  define d where "d = driftPhase rng s"
  define v where "v = visitorsPhase rng d"
  have z0: "money z0 = 1488" "food z0 = 100" "popularity z0 = 50" "loans z0 = []"
    "map capacity (enclosures z0) = [5]" "totalAnimals z0 = 0" "randCalls z0 = 10"
    "map w_type (workers z0) = [DIRECTOR, CLEANER, VETERINARIAN, FEEDER]"
    "sum_list (map salary (workers z0)) = 180" "sum_list (map dailyCost (enclosures z0)) = 10"
    by (simp_all add: z0_def Zoo_ctor_def refreshMarket_fields Enclosure_ctor_def Worker_ctor_def)
       (simp_all add: refreshMarket_def Let_def length_available)
  have s: "money s = 1488" "popularity s = 50" "loans s = []" "totalAnimals s = 0"
    "z_animals s = []" "map salary (workers s) = map salary (workers z0)"
    "enclosures s = enclosures z0" "specialVisitorType s = None_str" "specialVisitorCount s = 0"
    by (simp_all add: s_def workerPhase_def startDay_fields z0 salary_workerDay)
       (simp_all add: z0_def Zoo_ctor_def startDay_def refreshMarket_def Let_def)
  have rs: "randCalls s = 20"
    by (simp add: s_def workerPhase_def startDay_def refreshMarket_def Let_def length_available z0)
  have p0: "0 \<le> p"
    using random_drift_range [of rng 20] by (simp add: p_def)
  have d: "popularity d = p" "randCalls d = 21" "money d = 1488" "loans d = []"
    "totalAnimals d = 0" "workers d = workers s" "enclosures d = enclosures s"
    "specialVisitorType d = None_str" "specialVisitorCount d = 0"
    using p0 by (simp_all add: d_def driftPhase_def Let_def s rs p_def)
  have v: "visitors v = to_int p" "money v = 1488" "loans v = []" "totalAnimals v = 0"
    "workers v = workers s" "enclosures v = enclosures s"
    by (simp_all add: v_def visitorsPhase_fields d)
  have vs: "popularity v = p \<and> specialVisitorType v = None_str \<and> specialVisitorCount v = 0"
    if "random rng 21 0 99 < 20 \<or> 50 \<le> random rng 21 0 99"
    using that by (auto simp: v_def visitorsPhase_def Let_def d)
  have chain: "z1 = loanPhase (moneyPhase v)"
    unfolding z1_def nextDay_def v_def d_def s_def z0_def by (simp only: day_one_upto_drift)
  have m: "money (moneyPhase v) = 1488 + real_of_int (to_int p * 0) - 180 - 10"
    by (simp add: moneyPhase_def Let_def pay_salaries pay_upkeep v s z0)
  have lm: "loans (moneyPhase v) = []" by (simp add: moneyPhase_fields v)
  have "money z1 = money (moneyPhase v)" by (simp add: chain loanPhase_def lm)
  with m have m1: "money z1 = 1298" by simp
  have z1: "visitors z1 = to_int p" "totalAnimals z1 = 0"
    "popularity z1 = popularity v" "specialVisitorType z1 = specialVisitorType v"
    "specialVisitorCount z1 = specialVisitorCount v"
    by (simp_all add: chain loanPhase_def moneyPhase_def Let_def v)
  have dp: "popularity (driftPhase rng (feedPhase rng (vetPhase (sickPhase rng (workerPhase
          (agePhase rng (startDay rng indices' z0))))))) = p"
    unfolding z0_def day_one_upto_drift using d(1) by (simp add: d_def s_def z0_def)
  from p0 have fl: "to_int p = \<lfloor>p\<rfloor>" by (simp add: to_int_def)
  from z0 z1 m1 dp fl vs show ?thesis by simp
qed

theorem first_day_witness:
  "random (\<lambda>n. 0) 21 0 99 < 20
   \<and> visitors (nextDay (\<lambda>n. 0) [0..<10] ex_start) = 45
   \<and> popularity (nextDay (\<lambda>n. 0) [0..<10] ex_start) = 45
   \<and> money (nextDay (\<lambda>n. 0) [0..<10] ex_start) = 1298"
proof -
  have r: "random (\<lambda>n. 0) 21 0 99 < 20" and p: "random (\<lambda>n. 0) 20 (- 10) 10 = - 10"
    by (simp_all add: random_def)
  note t = first_day [where rng = "\<lambda>n. 0" and indices = "[0..<10]" and indices' = "[0..<10]"
      and n = "''Zoo''", folded ex_start_def]
  from t r have "visitors (nextDay (\<lambda>n. 0) [0..<10] ex_start)
         = to_int (50 * (1 + real_of_int (random (\<lambda>n. 0) 20 (- 10) 10) / 100))
     \<and> popularity (nextDay (\<lambda>n. 0) [0..<10] ex_start)
         = 50 * (1 + real_of_int (random (\<lambda>n. 0) 20 (- 10) 10) / 100)
     \<and> money (nextDay (\<lambda>n. 0) [0..<10] ex_start) = 1298"
    by blast
  with r show ?thesis by (simp add: p to_int_def)
qed

section \<open>Feeding\<close>

text \<open>
  Claim C3. The demand the feeding step computes is one unit per herbivore plus two per
  carnivore. When the stock is below the demand, the stock stays as it is, the registry
  keeps exactly the animals whose own roll is not below 30, the counter drops by the number
  of the starved, and each starved animal is removed from its enclosure. The roll of the
  animal at position \<open>i\<close> is the value of the \<open>i\<close>-th call of \<^verbatim>\<open>rand()\<close> the loop makes,
  taken modulo 100, a number from 0 to 99: every animal has a call of its own, whatever
  happened to the animals before it. When the stock covers the demand, the stock is
  reduced by the demand and nothing else changes.
\<close>

theorem feeding_step:
  "foodNeeded (z_animals z) = foodDemand (z_animals z)
   \<and> (food z < foodNeeded (z_animals z) \<longrightarrow>
         food (feedPhase rng z) = food z
       \<and> z_animals (feedPhase rng z) = spared rng (randCalls z) (z_animals z)
       \<and> totalAnimals (feedPhase rng z)
           = totalAnimals z - int (length (starved rng (randCalls z) (z_animals z)))
       \<and> enclosures (feedPhase rng z)
           = foldl (\<lambda>encs a. detach a encs) (enclosures z) (starved rng (randCalls z) (z_animals z))
       \<and> (\<forall>a \<in> set (starved rng (randCalls z) (z_animals z)). absent a (enclosures (feedPhase rng z)))
       \<and> randCalls (feedPhase rng z) = randCalls z + length (z_animals z))
   \<and> (foodNeeded (z_animals z) \<le> food z \<longrightarrow>
         feedPhase rng z = z\<lparr>food := food z - foodNeeded (z_animals z)\<rparr>)
   \<and> (\<forall>i. starveRoll rng (randCalls z) i = int (rng (randCalls z + i)) mod 100
          \<and> 0 \<le> starveRoll rng (randCalls z) i \<and> starveRoll rng (randCalls z) i \<le> 99)
   \<and> spared rng (randCalls z) (z_animals z)
       = map (\<lambda>i. z_animals z ! i)
           (filter (\<lambda>i. \<not> int (rng (randCalls z + i)) mod 100 < 30) [0..<length (z_animals z)])
   \<and> starved rng (randCalls z) (z_animals z)
       = map (\<lambda>i. z_animals z ! i)
           (filter (\<lambda>i. int (rng (randCalls z + i)) mod 100 < 30) [0..<length (z_animals z)])"
proof -
  have 1: "foodNeeded (z_animals z) = foodDemand (z_animals z)" by (rule foodNeeded_demand)
  have 2: "food (feedPhase rng z) = food z
       \<and> z_animals (feedPhase rng z) = spared rng (randCalls z) (z_animals z)
       \<and> totalAnimals (feedPhase rng z)
           = totalAnimals z - int (length (starved rng (randCalls z) (z_animals z)))
       \<and> enclosures (feedPhase rng z)
           = foldl (\<lambda>encs a. detach a encs) (enclosures z) (starved rng (randCalls z) (z_animals z))
       \<and> (\<forall>a \<in> set (starved rng (randCalls z) (z_animals z)). absent a (enclosures (feedPhase rng z)))
       \<and> randCalls (feedPhase rng z) = randCalls z + length (z_animals z)"
    if "food z < foodNeeded (z_animals z)"
  proof -
    from that have f: "feedPhase rng z
        = (snd (starveLoop rng (z_animals z) z))\<lparr>z_animals := fst (starveLoop rng (z_animals z) z)\<rparr>"
      by (simp add: feedPhase_def split_beta)
    show ?thesis
      unfolding f
      by (simp add: starveLoop_fields starveLoop_kept starveLoop_total starveLoop_enclosures
          starveLoop_randCalls absent_all)
  qed
  have 3: "feedPhase rng z = z\<lparr>food := food z - foodNeeded (z_animals z)\<rparr>"
    if "foodNeeded (z_animals z) \<le> food z"
    using that by (simp add: feedPhase_def)
  have 4: "starveRoll rng (randCalls z) i = int (rng (randCalls z + i)) mod 100
          \<and> 0 \<le> starveRoll rng (randCalls z) i \<and> starveRoll rng (randCalls z) i \<le> 99" for i
    by (simp add: starveRoll_is_rand)
  have 5: "spared rng (randCalls z) (z_animals z)
       = map (\<lambda>i. z_animals z ! i)
           (filter (\<lambda>i. \<not> int (rng (randCalls z + i)) mod 100 < 30) [0..<length (z_animals z)])"
    by (simp add: spared_def starveRoll_is_rand)
  have 6: "starved rng (randCalls z) (z_animals z)
       = map (\<lambda>i. z_animals z ! i)
           (filter (\<lambda>i. int (rng (randCalls z + i)) mod 100 < 30) [0..<length (z_animals z)])"
    by (simp add: starved_def starveRoll_is_rand)
  from 4 have r4: "\<forall>i. starveRoll rng (randCalls z) i = int (rng (randCalls z + i)) mod 100
          \<and> 0 \<le> starveRoll rng (randCalls z) i \<and> starveRoll rng (randCalls z) i \<le> 99"
    by blast
  from 1 2 3 r4 5 6 show ?thesis by blast
qed

theorem feeding_step_witness:
  "food ex_hungry_zoo < foodNeeded (z_animals ex_hungry_zoo)
   \<and> starveRoll ex_roll_rng (randCalls ex_hungry_zoo) 0 = 80
   \<and> starveRoll ex_roll_rng (randCalls ex_hungry_zoo) 1 = 10
   \<and> food (feedPhase ex_roll_rng ex_hungry_zoo) = 1
   \<and> z_animals (feedPhase ex_roll_rng ex_hungry_zoo) = [ex_deer]
   \<and> totalAnimals (feedPhase ex_roll_rng ex_hungry_zoo) = 1
   \<and> ex_rabbit \<in> set (starved ex_roll_rng (randCalls ex_hungry_zoo) (z_animals ex_hungry_zoo))
   \<and> absent ex_rabbit (enclosures (feedPhase ex_roll_rng ex_hungry_zoo))
   \<and> foodNeeded (z_animals ex_zoo) \<le> food ex_zoo
   \<and> food (feedPhase ex_roll_rng ex_zoo) = 98
   \<and> z_animals (feedPhase ex_roll_rng ex_zoo) = [ex_deer, ex_rabbit]"
proof -
  have n: "foodNeeded [ex_deer, ex_rabbit] = 2"
    by (simp add: foodNeeded_def ex_ages)
  have z: "z_animals ex_hungry_zoo = [ex_deer, ex_rabbit]" "food ex_hungry_zoo = 1"
    "randCalls ex_hungry_zoo = 10" "totalAnimals ex_hungry_zoo = 2"
    by (simp_all add: ex_hungry_zoo_def ex_zoo_fields)
  have h: "food ex_hungry_zoo < foodNeeded (z_animals ex_hungry_zoo)" by (simp add: z n)
  have e: "foodNeeded (z_animals ex_zoo) \<le> food ex_zoo" by (simp add: ex_zoo_fields n)
  note t = feeding_step [of ex_hungry_zoo ex_roll_rng]
  from t have r: "starveRoll ex_roll_rng (randCalls ex_hungry_zoo) 0 = 80"
    "starveRoll ex_roll_rng (randCalls ex_hungry_zoo) 1 = 10"
    by (simp_all add: z ex_roll_rng_def)
  have u: "[0..<length [ex_deer, ex_rabbit]] = [0, 1]" by (simp add: upt_conv_Cons)
  from t have s: "spared ex_roll_rng (randCalls ex_hungry_zoo) (z_animals ex_hungry_zoo) = [ex_deer]"
    and d: "starved ex_roll_rng (randCalls ex_hungry_zoo) (z_animals ex_hungry_zoo) = [ex_rabbit]"
    by (simp_all add: z u ex_roll_rng_def)
  from t h s d have 1: "food (feedPhase ex_roll_rng ex_hungry_zoo) = 1
     \<and> z_animals (feedPhase ex_roll_rng ex_hungry_zoo) = [ex_deer]
     \<and> totalAnimals (feedPhase ex_roll_rng ex_hungry_zoo) = 1"
    by (simp add: z)
  from d have m: "ex_rabbit \<in> set (starved ex_roll_rng (randCalls ex_hungry_zoo) (z_animals ex_hungry_zoo))"
    by simp
  with t h have a: "absent ex_rabbit (enclosures (feedPhase ex_roll_rng ex_hungry_zoo))" by blast
  from feeding_step [of ex_zoo ex_roll_rng] e
  have "feedPhase ex_roll_rng ex_zoo = ex_zoo\<lparr>food := food ex_zoo - foodNeeded (z_animals ex_zoo)\<rparr>"
    by blast
  then have 2: "food (feedPhase ex_roll_rng ex_zoo) = 98
     \<and> z_animals (feedPhase ex_roll_rng ex_zoo) = [ex_deer, ex_rabbit]"
    by (simp add: ex_zoo_fields n)
  from h r 1 m a e 2 show ?thesis by blast
qed

section \<open>Ageing\<close>

text \<open>
  Claim C2. The ageing loop leaves in the registry the animals that do not die, each one
  day older in age and in days since purchase and otherwise unchanged. The animal at
  position \<open>i\<close> dies exactly when its new age exceeds 30 and its roll is below its new age;
  so it dies for certain once the new age exceeds 99. The roll is the value of one call of
  \<^verbatim>\<open>rand()\<close> taken modulo 100, a number from 0 to 99; the call is the animal's own: its
  number in the loop is the number of animals before it whose new age exceeds 30, so two
  such animals never share a call, and the loop makes as many calls as there are such
  animals. The counter drops by the number of the dead, and each dead animal is removed
  from its enclosure.
\<close>

theorem ageing_step:
  "z_animals (agePhase rng z) = survivors rng (randCalls z) (z_animals z)
   \<and> (\<forall>a. ageDays (grow a) = ageDays a + 1 \<and> daysSincePurchase (grow a) = daysSincePurchase a + 1
          \<and> grow a = a\<lparr>ageDays := ageDays (grow a), daysSincePurchase := daysSincePurchase (grow a)\<rparr>)
   \<and> (\<forall>i < length (z_animals z).
        (diesOfAge rng (randCalls z) (z_animals z) i \<longleftrightarrow>
           ageDays (grow (z_animals z ! i)) > 30
           \<and> random rng (randCalls z + ageRollIndex (z_animals z) i) 0 99
               < ageDays (grow (z_animals z ! i)))
        \<and> 0 \<le> random rng (randCalls z + ageRollIndex (z_animals z) i) 0 99
        \<and> random rng (randCalls z + ageRollIndex (z_animals z) i) 0 99 \<le> 99
        \<and> (99 < ageDays (grow (z_animals z ! i)) \<longrightarrow> diesOfAge rng (randCalls z) (z_animals z) i)
        \<and> random rng (randCalls z + ageRollIndex (z_animals z) i) 0 99
            = int (rng (randCalls z + ageRollIndex (z_animals z) i)) mod 100
        \<and> (diesOfAge rng (randCalls z) (z_animals z) i \<longleftrightarrow>
             ageDays (grow (z_animals z ! i)) > 30
             \<and> int (rng (randCalls z + ageRollIndex (z_animals z) i)) mod 100
                 < ageDays (grow (z_animals z ! i)))
        \<and> ageRollIndex (z_animals z) i
            = length (filter (\<lambda>a. 30 < ageDays (grow a)) (take i (z_animals z)))
        \<and> (\<forall>j < i. 30 < ageDays (grow (z_animals z ! j)) \<longrightarrow>
               ageRollIndex (z_animals z) j < ageRollIndex (z_animals z) i))
   \<and> randCalls (agePhase rng z)
       = randCalls z + length (filter (\<lambda>a. 30 < ageDays (grow a)) (z_animals z))
   \<and> totalAnimals (agePhase rng z)
       = totalAnimals z - int (length (deadOfAge rng (randCalls z) (z_animals z)))
   \<and> enclosures (agePhase rng z)
       = foldl (\<lambda>encs a. detach a encs) (enclosures z) (deadOfAge rng (randCalls z) (z_animals z))
   \<and> (\<forall>a \<in> set (deadOfAge rng (randCalls z) (z_animals z)). absent a (enclosures (agePhase rng z)))"
proof -
  have f: "agePhase rng z
      = (snd (ageLoop rng (z_animals z) z))\<lparr>z_animals := fst (ageLoop rng (z_animals z) z)\<rparr>"
    by (simp add: agePhase_def split_beta)
  have 1: "z_animals (agePhase rng z) = survivors rng (randCalls z) (z_animals z)"
    unfolding f by (simp add: ageLoop_kept)
  have 2: "ageDays (grow a) = ageDays a + 1 \<and> daysSincePurchase (grow a) = daysSincePurchase a + 1
          \<and> grow a = a\<lparr>ageDays := ageDays (grow a), daysSincePurchase := daysSincePurchase (grow a)\<rparr>"
    for a by (simp add: grow_def)
  have 3: "(diesOfAge rng (randCalls z) (z_animals z) i \<longleftrightarrow>
           ageDays (grow (z_animals z ! i)) > 30
           \<and> random rng (randCalls z + ageRollIndex (z_animals z) i) 0 99
               < ageDays (grow (z_animals z ! i)))
        \<and> 0 \<le> random rng (randCalls z + ageRollIndex (z_animals z) i) 0 99
        \<and> random rng (randCalls z + ageRollIndex (z_animals z) i) 0 99 \<le> 99
        \<and> (99 < ageDays (grow (z_animals z ! i)) \<longrightarrow> diesOfAge rng (randCalls z) (z_animals z) i)"
    for i
    using random_range [of rng "randCalls z + ageRollIndex (z_animals z) i"]
    by (simp add: diesOfAge_def grow_fields)
  have 4: "totalAnimals (agePhase rng z)
       = totalAnimals z - int (length (deadOfAge rng (randCalls z) (z_animals z)))"
    unfolding f by (simp add: ageLoop_total)
  have 5: "enclosures (agePhase rng z)
       = foldl (\<lambda>encs a. detach a encs) (enclosures z) (deadOfAge rng (randCalls z) (z_animals z))"
    unfolding f by (simp add: ageLoop_enclosures)
  have 6: "\<forall>a \<in> set (deadOfAge rng (randCalls z) (z_animals z)). absent a (enclosures (agePhase rng z))"
    unfolding 5 by (rule absent_all)
  have 7: "random rng (randCalls z + ageRollIndex (z_animals z) i) 0 99
            = int (rng (randCalls z + ageRollIndex (z_animals z) i)) mod 100
        \<and> (diesOfAge rng (randCalls z) (z_animals z) i \<longleftrightarrow>
             ageDays (grow (z_animals z ! i)) > 30
             \<and> int (rng (randCalls z + ageRollIndex (z_animals z) i)) mod 100
                 < ageDays (grow (z_animals z ! i)))
        \<and> ageRollIndex (z_animals z) i
            = length (filter (\<lambda>a. 30 < ageDays (grow a)) (take i (z_animals z)))"
    for i
    by (simp add: diesOfAge_def grow_fields random_is_rand ageRollIndex_def)
  have 8: "\<forall>j < i. 30 < ageDays (grow (z_animals z ! j)) \<longrightarrow>
               ageRollIndex (z_animals z) j < ageRollIndex (z_animals z) i"
    if "i < length (z_animals z)" for i
    using that by (simp add: grow_fields ageRollIndex_own)
  have 9: "randCalls (agePhase rng z)
       = randCalls z + length (filter (\<lambda>a. 30 < ageDays (grow a)) (z_animals z))"
    unfolding f by (simp add: ageLoop_randCalls ageRollIndex_def grow_fields)
  from 3 7 8 have 10: "\<forall>i < length (z_animals z).
        (diesOfAge rng (randCalls z) (z_animals z) i \<longleftrightarrow>
           ageDays (grow (z_animals z ! i)) > 30
           \<and> random rng (randCalls z + ageRollIndex (z_animals z) i) 0 99
               < ageDays (grow (z_animals z ! i)))
        \<and> 0 \<le> random rng (randCalls z + ageRollIndex (z_animals z) i) 0 99
        \<and> random rng (randCalls z + ageRollIndex (z_animals z) i) 0 99 \<le> 99
        \<and> (99 < ageDays (grow (z_animals z ! i)) \<longrightarrow> diesOfAge rng (randCalls z) (z_animals z) i)
        \<and> random rng (randCalls z + ageRollIndex (z_animals z) i) 0 99
            = int (rng (randCalls z + ageRollIndex (z_animals z) i)) mod 100
        \<and> (diesOfAge rng (randCalls z) (z_animals z) i \<longleftrightarrow>
             ageDays (grow (z_animals z ! i)) > 30
             \<and> int (rng (randCalls z + ageRollIndex (z_animals z) i)) mod 100
                 < ageDays (grow (z_animals z ! i)))
        \<and> ageRollIndex (z_animals z) i
            = length (filter (\<lambda>a. 30 < ageDays (grow a)) (take i (z_animals z)))
        \<and> (\<forall>j < i. 30 < ageDays (grow (z_animals z ! j)) \<longrightarrow>
               ageRollIndex (z_animals z) j < ageRollIndex (z_animals z) i)"
    by (intro allI impI conjI) blast+
  from 2 have g2: "\<forall>a. ageDays (grow a) = ageDays a + 1 \<and> daysSincePurchase (grow a) = daysSincePurchase a + 1
          \<and> grow a = a\<lparr>ageDays := ageDays (grow a), daysSincePurchase := daysSincePurchase (grow a)\<rparr>"
    by blast
  from 1 g2 10 9 4 5 6 show ?thesis by (intro conjI)
qed

theorem ageing_step_witness:
  "2 < length (z_animals ex_old_zoo)
   \<and> 99 < ageDays (grow (z_animals ex_old_zoo ! 0))
   \<and> diesOfAge ex_roll_rng (randCalls ex_old_zoo) (z_animals ex_old_zoo) 0
   \<and> ageDays (grow (z_animals ex_old_zoo ! 1)) = 50
   \<and> int (ex_roll_rng (randCalls ex_old_zoo + ageRollIndex (z_animals ex_old_zoo) 1)) mod 100 = 10
   \<and> diesOfAge ex_roll_rng (randCalls ex_old_zoo) (z_animals ex_old_zoo) 1
   \<and> ageDays (grow (z_animals ex_old_zoo ! 2)) = 50
   \<and> int (ex_roll_rng (randCalls ex_old_zoo + ageRollIndex (z_animals ex_old_zoo) 2)) mod 100 = 80
   \<and> \<not> diesOfAge ex_roll_rng (randCalls ex_old_zoo) (z_animals ex_old_zoo) 2
   \<and> z_animals (agePhase ex_roll_rng ex_old_zoo) = [grow ex_mid_b, grow ex_rabbit]
   \<and> ageDays (grow ex_rabbit) = 4
   \<and> totalAnimals (agePhase ex_roll_rng ex_old_zoo) = 2
   \<and> randCalls (agePhase ex_roll_rng ex_old_zoo) = randCalls ex_old_zoo + 3
   \<and> grow ex_mid_a \<in> set (deadOfAge ex_roll_rng (randCalls ex_old_zoo) (z_animals ex_old_zoo))
   \<and> absent (grow ex_mid_a) (enclosures (agePhase ex_roll_rng ex_old_zoo))"
proof -
  have z: "z_animals ex_old_zoo = [ex_elder, ex_mid_a, ex_mid_b, ex_rabbit]"
    "randCalls ex_old_zoo = 10" "totalAnimals ex_old_zoo = 4"
    by (simp_all add: ex_old_zoo_def ex_zoo_fields)
  have g: "ageDays ex_mid_a = 49" "ageDays ex_mid_b = 49"
    by (simp_all add: ex_mid_a_def ex_mid_b_def)
  have s: "survivors ex_roll_rng 10 [ex_elder, ex_mid_a, ex_mid_b, ex_rabbit]
             = [grow ex_mid_b, grow ex_rabbit]"
    by (simp add: survivors_Cons ex_ages g random_def ex_roll_rng_def) (simp add: survivors_def)
  have d: "deadOfAge ex_roll_rng 10 [ex_elder, ex_mid_a, ex_mid_b, ex_rabbit]
             = [grow ex_elder, grow ex_mid_a]"
    by (simp add: deadOfAge_Cons ex_ages g random_def ex_roll_rng_def) (simp add: deadOfAge_def)
  have l: "2 < length (z_animals ex_old_zoo)" "1 < length (z_animals ex_old_zoo)"
    "0 < length (z_animals ex_old_zoo)"
    and o: "99 < ageDays (grow (z_animals ex_old_zoo ! 0))"
    and a1: "ageDays (grow (z_animals ex_old_zoo ! 1)) = 50"
    and a2: "ageDays (grow (z_animals ex_old_zoo ! 2)) = 50"
    by (simp_all add: z grow_fields ex_ages g)
  note t = ageing_step [of ex_roll_rng ex_old_zoo]
  from t l(3) o have 0: "diesOfAge ex_roll_rng (randCalls ex_old_zoo) (z_animals ex_old_zoo) 0"
    by blast
  from t l(2) have i1: "ageRollIndex (z_animals ex_old_zoo) 1
      = length (filter (\<lambda>a. 30 < ageDays (grow a)) (take 1 (z_animals ex_old_zoo)))"
    by blast
  from t l(1) have i2: "ageRollIndex (z_animals ex_old_zoo) 2
      = length (filter (\<lambda>a. 30 < ageDays (grow a)) (take 2 (z_animals ex_old_zoo)))"
    by blast
  have r1: "int (ex_roll_rng (randCalls ex_old_zoo + ageRollIndex (z_animals ex_old_zoo) 1)) mod 100 = 10"
    unfolding i1 by (simp add: z grow_fields ex_ages g ex_roll_rng_def)
  have r2: "int (ex_roll_rng (randCalls ex_old_zoo + ageRollIndex (z_animals ex_old_zoo) 2)) mod 100 = 80"
    unfolding i2 by (simp add: z grow_fields ex_ages g ex_roll_rng_def numeral_2_eq_2)
  from t l(2) have "diesOfAge ex_roll_rng (randCalls ex_old_zoo) (z_animals ex_old_zoo) 1 \<longleftrightarrow>
      ageDays (grow (z_animals ex_old_zoo ! 1)) > 30
      \<and> int (ex_roll_rng (randCalls ex_old_zoo + ageRollIndex (z_animals ex_old_zoo) 1)) mod 100
          < ageDays (grow (z_animals ex_old_zoo ! 1))"
    by blast
  then have 1: "diesOfAge ex_roll_rng (randCalls ex_old_zoo) (z_animals ex_old_zoo) 1"
    using a1 r1 by simp
  from t l(1) have "diesOfAge ex_roll_rng (randCalls ex_old_zoo) (z_animals ex_old_zoo) 2 \<longleftrightarrow>
      ageDays (grow (z_animals ex_old_zoo ! 2)) > 30
      \<and> int (ex_roll_rng (randCalls ex_old_zoo + ageRollIndex (z_animals ex_old_zoo) 2)) mod 100
          < ageDays (grow (z_animals ex_old_zoo ! 2))"
    by blast
  then have 2: "\<not> diesOfAge ex_roll_rng (randCalls ex_old_zoo) (z_animals ex_old_zoo) 2"
    using a2 r2 by simp
  from t have 3: "z_animals (agePhase ex_roll_rng ex_old_zoo) = [grow ex_mid_b, grow ex_rabbit]"
    by (simp add: z s)
  from t have 4: "totalAnimals (agePhase ex_roll_rng ex_old_zoo) = 2"
    by (simp add: z d)
  from t have "randCalls (agePhase ex_roll_rng ex_old_zoo)
       = randCalls ex_old_zoo
         + length (filter (\<lambda>a. 30 < ageDays (grow a)) (z_animals ex_old_zoo))"
    by blast
  then have 5: "randCalls (agePhase ex_roll_rng ex_old_zoo) = randCalls ex_old_zoo + 3"
    by (simp add: z grow_fields ex_ages g)
  have 6: "grow ex_mid_a \<in> set (deadOfAge ex_roll_rng (randCalls ex_old_zoo) (z_animals ex_old_zoo))"
    by (simp add: z d)
  with t have 7: "absent (grow ex_mid_a) (enclosures (agePhase ex_roll_rng ex_old_zoo))" by blast
  have 8: "ageDays (grow ex_rabbit) = 4" by (simp add: grow_fields ex_ages)
  from l(1) o 0 a1 r1 1 a2 r2 2 3 8 4 5 6 7 show ?thesis by (intro conjI)
qed

end
